theory Spec2Isabelle
  imports Complex_Main
begin

section \<open>Python values used by \<open>aprl/envs/multi_agent.py\<close>\<close>

text \<open>
  The exceptions the module can raise, as values. A function of the module that may raise
  returns \<open>error + 'a\<close>, with \<open>Inl\<close> for the exception.
\<close>

datatype error =
    AssertionError
  | IndexError
  | KeyError
  | TypeError
  | ValueError
  | AttributeError
  | NameError
  | NotImplementedError

text \<open>
  A comprehension \<open>[f(x) for x in xs]\<close> whose element expression may raise: the elements are
  computed in order and the first exception ends the computation.
\<close>

fun collect :: "('a \<Rightarrow> error + 'b) \<Rightarrow> 'a list \<Rightarrow> error + 'b list" where
  "collect f [] = Inr []"
| "collect f (x # xs) =
     (case f x of
        Inl e \<Rightarrow> Inl e
      | Inr y \<Rightarrow> (case collect f xs of Inl e \<Rightarrow> Inl e | Inr ys \<Rightarrow> Inr (y # ys)))"

text \<open>
  \<open>list.insert(i, x)\<close> of Python: a negative index counts from the end, and an index out
  of range is clamped to the nearest end; it never raises.
\<close>

definition py_insert :: "'a list \<Rightarrow> int \<Rightarrow> 'a \<Rightarrow> 'a list" where
  "py_insert xs i x =
     (let n = int (length xs);
          w = (if i < 0 then (if i + n < 0 then 0 else i + n) else i);
          w' = (if w > n then n else w)
      in take (nat w') xs @ [x] @ drop (nat w') xs)"

text \<open>
  \<open>list.pop(i)\<close> of Python: a negative index counts from the end; an index out of range
  raises IndexError. The result is the list without the element, and the element.
\<close>

definition py_pop :: "'a list \<Rightarrow> int \<Rightarrow> error + ('a list \<times> 'a)" where
  "py_pop xs i =
     (let n = int (length xs);
          j = (if i < 0 then i + n else i)
      in if 0 \<le> j \<and> j < n
         then Inr (take (nat j) xs @ drop (Suc (nat j)) xs, xs ! nat j)
         else Inl IndexError)"

section \<open>Tuple helpers\<close>

text \<open>
  \<^verbatim>\<open>
  def _tuple_pop(input, i):
      output = list(input)
      elt = output.pop(i)
      return tuple(output), elt
  \<close>
\<close>

definition tuple_pop :: "'a list \<Rightarrow> int \<Rightarrow> error + ('a list \<times> 'a)" where
  "tuple_pop input i = py_pop input i"

text \<open>
  \<^verbatim>\<open>
  def _tuple_space_filter(tuple_space, filter_idx):
      filtered_spaces = (space for i, space in enumerate(tuple_space.spaces) if i != filter_idx)
      return gym.spaces.Tuple(tuple(filtered_spaces))
  \<close>
  A Tuple space is represented by the list of its component spaces.
\<close>

definition tuple_space_filter :: "'sp list \<Rightarrow> int \<Rightarrow> 'sp list" where
  "tuple_space_filter spaces filter_idx =
     map snd (filter (\<lambda>(i, space). int i \<noteq> filter_idx) (enumerate 0 spaces))"

section \<open>Tuple/mapping bridge\<close>

text \<open>
  A dictionary with integer keys is an association list of (key, value) pairs, in
  insertion order (the source builds an OrderedDict).
  \<^verbatim>\<open>
  def _tuple_to_dict(tuple):
      return collections.OrderedDict(((i, v) for i, v in enumerate(tuple)))
  \<close>
\<close>

definition tuple_to_dict :: "'a list \<Rightarrow> (int \<times> 'a) list" where
  "tuple_to_dict xs = map (\<lambda>(i, v). (int i, v)) (enumerate 0 xs)"

text \<open>
  \<open>d[i]\<close>: a missing key raises KeyError.
\<close>

definition dict_get :: "(int \<times> 'a) list \<Rightarrow> int \<Rightarrow> error + 'a" where
  "dict_get d i = (case map_of d i of None \<Rightarrow> Inl KeyError | Some v \<Rightarrow> Inr v)"

text \<open>
  \<^verbatim>\<open>
  def _dict_to_tuple(d):
      min_k = min(d.keys())
      assert min_k == 0
      max_k = max(d.keys())
      return tuple(d[i] for i in range(max_k + 1))
  \<close>
  \<open>min\<close> of an empty sequence raises ValueError.
\<close>

definition dict_to_tuple :: "(int \<times> 'a) list \<Rightarrow> error + 'a list" where
  "dict_to_tuple d =
     (if d = [] then Inl ValueError
      else let min_k = Min (set (map fst d)) in
        if min_k \<noteq> 0 then Inl AssertionError
        else let max_k = Max (set (map fst d)) in
          collect (dict_get d) [0..max_k])"

section \<open>Layout transposer\<close>

text \<open>
  The loop \<open>for x in xs: assert len(x) == inner_len\<close>.
\<close>

fun check_inner_len :: "nat \<Rightarrow> 'a list list \<Rightarrow> error + unit" where
  "check_inner_len inner_len [] = Inr ()"
| "check_inner_len inner_len (x # xs) =
     (if length x = inner_len then check_inner_len inner_len xs else Inl AssertionError)"

text \<open>
  \<^verbatim>\<open>
  def tuple_transpose(xs):
      inner_len = len(xs[0])
      for x in xs:
          assert len(x) == inner_len
      return tuple(tuple([x[i] for x in xs]) for i in range(inner_len))
  \<close>
  \<open>xs[0]\<close> raises IndexError on an empty sequence. After the loop every \<open>x[i]\<close> is in range.
\<close>

definition tuple_transpose :: "'a list list \<Rightarrow> error + 'a list list" where
  "tuple_transpose xs =
     (case xs of
        [] \<Rightarrow> Inl IndexError
      | x0 # _ \<Rightarrow>
          (let inner_len = length x0 in
           case check_inner_len inner_len xs of
             Inl e \<Rightarrow> Inl e
           | Inr _ \<Rightarrow> Inr (map (\<lambda>i. map (\<lambda>x. x ! i) xs) [0..<inner_len])))"

text \<open>Applying the transposer twice, an exception of either call ending the computation.\<close>

definition transpose_twice :: "'a list list \<Rightarrow> error + 'a list list" where
  "transpose_twice xs =
     (case tuple_transpose xs of Inl e \<Rightarrow> Inl e | Inr ys \<Rightarrow> tuple_transpose ys)"

section \<open>Spaces and multi-agent environments\<close>

text \<open>
  The gym spaces the module dispatches on. \<open>Discrete(n)\<close> has the attribute \<open>n\<close>,
  \<open>MultiDiscrete(nvec)\<close> the integer array \<open>nvec\<close>, \<open>Box\<close> its bounds \<open>low\<close> and
  \<open>high\<close>; \<open>MultiBinary\<close> stands for the kinds the module does not flatten.
\<close>

datatype nd = Scalar int | Arr "nd list"

datatype space =
    Discrete int
  | MultiDiscrete nd
  | Box "real list" "real list"
  | MultiBinary int

text \<open>
  The classes of these spaces, and \<open>type\<close>, the class of every class object. An object
  is an instance of a space class or a class object itself.
\<close>

datatype py_class = DiscreteC | MultiDiscreteC | BoxC | MultiBinaryC | TypeC

datatype py_object = Instance space | Class py_class

fun type_of :: "py_object \<Rightarrow> py_class" where
  "type_of (Instance (Discrete _)) = DiscreteC"
| "type_of (Instance (MultiDiscrete _)) = MultiDiscreteC"
| "type_of (Instance (Box _ _)) = BoxC"
| "type_of (Instance (MultiBinary _)) = MultiBinaryC"
| "type_of (Class _) = TypeC"

text \<open>
  \<open>isinstance(obj, cls)\<close>: the class of \<open>obj\<close> is \<open>cls\<close> or a subclass of it. None of
  the classes above is a subclass of another one of them.
\<close>

definition isinstance :: "py_object \<Rightarrow> py_class \<Rightarrow> bool" where
  "isinstance obj cls = (type_of obj = cls)"

fun space_n :: "space \<Rightarrow> error + int" where
  "space_n (Discrete n) = Inr n"
| "space_n _ = Inl AttributeError"

fun space_nvec :: "space \<Rightarrow> error + nd" where
  "space_nvec (MultiDiscrete nvec) = Inr nvec"
| "space_nvec _ = Inl AttributeError"

text \<open>
  A multi-agent environment (class \<open>MultiAgentEnv\<close>): \<open>num_agents\<close>, the component spaces
  of its Tuple observation and action spaces, and \<open>step\<close> and \<open>reset\<close> as functions of the
  environment's internal state, which they return updated. \<open>step\<close> returns
  (observations, rewards, done, infos).
\<close>

record ('s, 'o, 'a, 'r, 'i) multi_env =
  num_agents :: int
  observation_space :: "space list"
  action_space :: "space list"
  env_step :: "'s \<Rightarrow> 'a list \<Rightarrow> ('o list \<times> 'r list \<times> bool \<times> 'i) \<times> 's"
  env_reset :: "'s \<Rightarrow> 'o list \<times> 's"
  env_state :: 's

text \<open>
  \<^verbatim>\<open>
  class MultiAgentEnv(Env):
      def __init__(self, num_agents):
          self.num_agents = num_agents
          assert len(self.action_space.spaces) == num_agents
          assert len(self.observation_space.spaces) == num_agents

  class MultiWrapper(Wrapper, MultiAgentEnv):
      def __init__(self, env):
          Wrapper.__init__(self, env)
          MultiAgentEnv.__init__(self, getattr_unwrapped(env, 'num_agents'))
  \<close>
  \<open>Wrapper.__init__\<close> gives the wrapper the spaces of \<open>env\<close>; \<open>getattr_unwrapped\<close> reads
  the attribute of the wrapped environment. The result is the wrapper's \<open>num_agents\<close>.
\<close>

definition MultiWrapper_init :: "('s, 'o, 'a, 'r, 'i) multi_env \<Rightarrow> error + int" where
  "MultiWrapper_init env =
     (if int (length (action_space env)) \<noteq> num_agents env then Inl AssertionError
      else if int (length (observation_space env)) \<noteq> num_agents env then Inl AssertionError
      else Inr (num_agents env))"

section \<open>Space flattener\<close>

text \<open>
  \<^verbatim>\<open>
  def flatten_space(tuple_space):
      unique_types = set(type(space) for space in tuple_space.spaces)
      if len(unique_types) > 1:
          raise TypeError(...)
      type = unique_types.pop()

      if isinstance(type, gym.spaces.Discrete):
          flat_space = gym.spaces.MultiDiscrete([space.n for space in tuple_space.spaces])
          flatten = unflatten = lambda x: x
      elif isinstance(type, gym.spaces.MultiDiscrete):
          flat_space = gym.spaces.MultiDiscrete([space.nvec for space in tuple_space.spaces])
          flatten = unflatten = lambda x: x
      elif isinstance(type, gym.spaces.Box):
          ...
      else:
          raise NotImplementedError("Unsupported type: f{type}")
      return flat_space, flatten, unflatten
  \<close>
  The function assigns the name \<open>type\<close> (fifth line), so \<open>type\<close> is a local variable
  of the function in its whole body, also in the generator expression of the second line,
  which runs before the assignment: there the variable has no value, and evaluating
  \<open>type(space)\<close> raises NameError, for the first element already. The set of types is a
  list without duplicates; \<open>pop\<close> on an empty set raises KeyError. After the assignment,
  the three tests are \<open>isinstance\<close> of the popped object.
  The Box branch is numpy code on floating-point arrays (\<open>np.concatenate\<close>, \<open>np.flatten\<close>,
  \<open>np.cumsum\<close>, \<open>np.reshape\<close>); it is the parameter \<open>box_branch\<close>, so that what is proved
  of \<open>flatten_space\<close> holds whatever that branch computes.
\<close>

type_synonym 'x flat = "space \<times> ('x \<Rightarrow> error + 'x) \<times> ('x \<Rightarrow> error + 'x)"

text \<open>Reading a local variable: NameError when nothing has been assigned to it yet.\<close>

definition load_local :: "'v option \<Rightarrow> error + 'v" where
  "load_local var = (case var of None \<Rightarrow> Inl NameError | Some v \<Rightarrow> Inr v)"

text \<open>
  The \<open>if\<close> chain of \<open>flatten_space\<close>, from the first \<open>isinstance\<close> test to the \<open>return\<close>,
  as a function of the value \<open>ty\<close> assigned to \<open>type\<close>.
\<close>

definition flatten_dispatch ::
  "(space list \<Rightarrow> error + 'x flat) \<Rightarrow> py_object \<Rightarrow> space list \<Rightarrow> error + 'x flat" where
  "flatten_dispatch box_branch ty spaces =
     (if isinstance ty DiscreteC then
        (case collect space_n spaces of
           Inl e \<Rightarrow> Inl e
         | Inr ns \<Rightarrow> Inr (MultiDiscrete (Arr (map Scalar ns)), Inr, Inr))
      else if isinstance ty MultiDiscreteC then
        (case collect space_nvec spaces of
           Inl e \<Rightarrow> Inl e
         | Inr nvecs \<Rightarrow> Inr (MultiDiscrete (Arr nvecs), Inr, Inr))
      else if isinstance ty BoxC then box_branch spaces
      else Inl NotImplementedError)"

text \<open>
  \<open>flatten_space\<close> itself. \<open>local_type\<close> is the local variable \<open>type\<close> as the generator
  expression finds it, called on each space.
\<close>

definition flatten_space :: "(space list \<Rightarrow> error + 'x flat) \<Rightarrow> space list \<Rightarrow> error + 'x flat" where
  "flatten_space box_branch spaces =
     (let local_type = (None :: (space \<Rightarrow> py_object) option) in
      case collect (\<lambda>space. case load_local local_type of
                               Inl e \<Rightarrow> Inl e
                             | Inr f \<Rightarrow> Inr (f space)) spaces of
        Inl e \<Rightarrow> Inl e
      | Inr types \<Rightarrow>
          (let unique_types = remdups types in
           if length unique_types > 1 then Inl TypeError
           else case unique_types of
             [] \<Rightarrow> Inl KeyError
           | ty # _ \<Rightarrow> flatten_dispatch box_branch ty spaces))"

section \<open>FlattenMultiEnv\<close>

record ('s, 'o, 'a, 'r, 'i, 'fo, 'fa, 'ra) flatten_multi_env =
  fm_env :: "('s, 'o, 'a, 'r, 'i) multi_env"
  fm_observation_space :: space
  fm_action_space :: space
  obs_flatten :: "'o list \<Rightarrow> error + 'fo"
  act_unflatten :: "'fa \<Rightarrow> error + 'a list"
  reward_agg :: "'r list \<Rightarrow> 'ra"

text \<open>
  \<^verbatim>\<open>
  def __init__(self, env, reward_agg=sum):
      self.observation_space, self._obs_flatten, _ = flatten_space(env.observation_space)
      self.action_space, _, self._act_unflatten = flatten_space(env.action_space)
      self.reward_agg = reward_agg
      super().__init__(env)
  \<close>
\<close>

definition FlattenMultiEnv_init ::
  "(space list \<Rightarrow> error + 'o list flat) \<Rightarrow> (space list \<Rightarrow> error + 'a list flat) \<Rightarrow>
   ('s, 'o, 'a, 'r, 'i) multi_env \<Rightarrow> ('r list \<Rightarrow> 'ra) \<Rightarrow>
   error + ('s, 'o, 'a, 'r, 'i, 'o list, 'a list, 'ra) flatten_multi_env" where
  "FlattenMultiEnv_init box_obs box_act env agg =
     (case flatten_space box_obs (observation_space env) of
        Inl e \<Rightarrow> Inl e
      | Inr (obs_space, obs_fl, _) \<Rightarrow>
          (case flatten_space box_act (action_space env) of
             Inl e \<Rightarrow> Inl e
           | Inr (act_space, _, act_unfl) \<Rightarrow>
               Inr \<lparr>fm_env = env, fm_observation_space = obs_space,
                    fm_action_space = act_space, obs_flatten = obs_fl,
                    act_unflatten = act_unfl, reward_agg = agg\<rparr>))"

text \<open>
  \<^verbatim>\<open>
  def step(self, action):
      action = self._act_unflatten(action)
      observations, rewards, done, infos = self.env.step(action)
      return self._obs_flatten(observations), self.reward_agg(rewards), done, infos
  \<close>
\<close>

definition FlattenMultiEnv_step ::
  "('s, 'o, 'a, 'r, 'i, 'fo, 'fa, 'ra) flatten_multi_env \<Rightarrow> 'fa \<Rightarrow>
   error + (('fo \<times> 'ra \<times> bool \<times> 'i) \<times> ('s, 'o, 'a, 'r, 'i, 'fo, 'fa, 'ra) flatten_multi_env)" where
  "FlattenMultiEnv_step fm action =
     (case act_unflatten fm action of
        Inl e \<Rightarrow> Inl e
      | Inr action' \<Rightarrow>
          (case env_step (fm_env fm) (env_state (fm_env fm)) action' of
             ((observations, rewards, done, infos), s') \<Rightarrow>
               (case obs_flatten fm observations of
                  Inl e \<Rightarrow> Inl e
                | Inr flat_obs \<Rightarrow>
                    Inr ((flat_obs, reward_agg fm rewards, done, infos),
                         fm\<lparr>fm_env := (fm_env fm)\<lparr>env_state := s'\<rparr>\<rparr>))))"

text \<open>
  \<^verbatim>\<open>
  def reset(self):
      return self.env.reset()[0]
  \<close>
  \<open>[0]\<close> raises IndexError on an empty tuple.
\<close>

definition FlattenMultiEnv_reset ::
  "('s, 'o, 'a, 'r, 'i, 'fo, 'fa, 'ra) flatten_multi_env \<Rightarrow>
   error + ('o \<times> ('s, 'o, 'a, 'r, 'i, 'fo, 'fa, 'ra) flatten_multi_env)" where
  "FlattenMultiEnv_reset fm =
     (case env_reset (fm_env fm) (env_state (fm_env fm)) of
        (observations, s') \<Rightarrow>
          (case observations of
             [] \<Rightarrow> Inl IndexError
           | ob # _ \<Rightarrow> Inr (ob, fm\<lparr>fm_env := (fm_env fm)\<lparr>env_state := s'\<rparr>\<rparr>)))"

section \<open>CurryEnv\<close>

text \<open>
  The fixed agent is its \<open>get_action\<close>, a function of the last observation, which is
  \<open>None\<close> until the first reset.
\<close>

record ('s, 'o, 'a, 'r, 'i) curry_env =
  c_env :: "('s, 'o, 'a, 'r, 'i) multi_env"
  c_num_agents :: int
  c_observation_space :: "space list"
  c_action_space :: "space list"
  agent_to_fix :: int
  agent :: "'o option \<Rightarrow> 'a"
  last_obs :: "'o option"
  last_reward :: "'r option"

text \<open>
  \<^verbatim>\<open>
  def __init__(self, env, agent, agent_idx=0):
      super().__init__(env)

      assert env.num_agents >= 1  # allow currying the last agent
      self.num_agents = env.num_agents - 1
      self.observation_space = _tuple_space_filter(self.observation_space, agent_idx)
      self.action_space = _tuple_space_filter(self.action_space, agent_idx)

      self._agent_to_fix = agent_idx
      self._agent = agent
      self._last_obs = None
      self._last_reward = None
  \<close>
\<close>

definition CurryEnv_init ::
  "('s, 'o, 'a, 'r, 'i) multi_env \<Rightarrow> ('o option \<Rightarrow> 'a) \<Rightarrow> int \<Rightarrow>
   error + ('s, 'o, 'a, 'r, 'i) curry_env" where
  "CurryEnv_init env ag agent_idx =
     (case MultiWrapper_init env of
        Inl e \<Rightarrow> Inl e
      | Inr _ \<Rightarrow>
          if \<not> num_agents env \<ge> 1 then Inl AssertionError
          else Inr \<lparr>c_env = env,
                    c_num_agents = num_agents env - 1,
                    c_observation_space = tuple_space_filter (observation_space env) agent_idx,
                    c_action_space = tuple_space_filter (action_space env) agent_idx,
                    agent_to_fix = agent_idx,
                    agent = ag,
                    last_obs = None,
                    last_reward = None\<rparr>)"

text \<open>
  \<^verbatim>\<open>
  def step(self, actions):
      action = self._agent.get_action(self._last_obs)
      actions.insert(self._agent_to_fix, action)
      observations, rewards, done, infos = self.env.step(actions)

      observations, self._last_obs = _tuple_pop(observations, self._agent_to_fix)
      rewards, self._last_reward = _tuple_pop(rewards, self._agent_to_fix)

      return observations, rewards, done, infos
  \<close>
  \<open>insert\<close> changes the caller's list object in place, and that object is what the
  wrapped \<open>step\<close> receives: the model returns, with the results and the updated CurryEnv,
  the list handed to the wrapped \<open>step\<close>. What the wrapped \<open>step\<close> does to the list object
  it receives is the subject of \<open>CurryEnv_step_shared\<close> below.
\<close>

definition CurryEnv_step ::
  "('s, 'o, 'a, 'r, 'i) curry_env \<Rightarrow> 'a list \<Rightarrow>
   error + (('o list \<times> 'r list \<times> bool \<times> 'i) \<times> 'a list \<times> ('s, 'o, 'a, 'r, 'i) curry_env)" where
  "CurryEnv_step c actions =
     (let action = agent c (last_obs c);
          actions' = py_insert actions (agent_to_fix c) action
      in case env_step (c_env c) (env_state (c_env c)) actions' of
           ((observations, rewards, done, infos), s') \<Rightarrow>
             (case tuple_pop observations (agent_to_fix c) of
                Inl e \<Rightarrow> Inl e
              | Inr (observations', lo) \<Rightarrow>
                  (case tuple_pop rewards (agent_to_fix c) of
                     Inl e \<Rightarrow> Inl e
                   | Inr (rewards', lr) \<Rightarrow>
                       Inr ((observations', rewards', done, infos), actions',
                            c\<lparr>c_env := (c_env c)\<lparr>env_state := s'\<rparr>,
                              last_obs := Some lo, last_reward := Some lr\<rparr>))))"

text \<open>
  \<^verbatim>\<open>
  def reset(self):
      observations = self.env.reset()
      observations, self._last_obs = _tuple_pop(observations, self._agent_to_fix)
      return observations
  \<close>
\<close>

definition CurryEnv_reset ::
  "('s, 'o, 'a, 'r, 'i) curry_env \<Rightarrow> error + ('o list \<times> ('s, 'o, 'a, 'r, 'i) curry_env)" where
  "CurryEnv_reset c =
     (case env_reset (c_env c) (env_state (c_env c)) of
        (observations, s') \<Rightarrow>
          (case tuple_pop observations (agent_to_fix c) of
             Inl e \<Rightarrow> Inl e
           | Inr (observations', lo) \<Rightarrow>
               Inr (observations',
                    c\<lparr>c_env := (c_env c)\<lparr>env_state := s'\<rparr>, last_obs := Some lo\<rparr>)))"

text \<open>
  \<open>step\<close> and the caller's list object. \<open>self.env.step(actions)\<close> receives the list object
  that \<open>insert\<close> has just changed, and may change it again. An environment is here its
  \<open>step\<close> in a form that shows this: it may raise, and it returns, with the results and its
  new state, the list object as it leaves it.
\<close>

record ('s, 'o, 'a, 'r, 'i) shared_env =
  sh_step :: "'s \<Rightarrow> 'a list \<Rightarrow> error + (('o list \<times> 'r list \<times> bool \<times> 'i) \<times> 'a list \<times> 's)"
  sh_state :: 's

text \<open>The fields of a CurryEnv that \<open>step\<close> reads and assigns, around such an environment.\<close>

record ('s, 'o, 'a, 'r, 'i) curry_shared =
  cs_env :: "('s, 'o, 'a, 'r, 'i) shared_env"
  cs_agent_to_fix :: int
  cs_agent :: "'o option \<Rightarrow> 'a"
  cs_last_obs :: "'o option"
  cs_last_reward :: "'r option"

text \<open>
  \<open>CurryEnv.step\<close> (the source text is given with \<open>CurryEnv_step\<close>), with the list object
  followed through the call of the wrapped \<open>step\<close>: the list returned is the caller's list
  object as it is when \<open>step\<close> returns.
\<close>

definition CurryEnv_step_shared ::
  "('s, 'o, 'a, 'r, 'i) curry_shared \<Rightarrow> 'a list \<Rightarrow>
   error + (('o list \<times> 'r list \<times> bool \<times> 'i) \<times> 'a list \<times> ('s, 'o, 'a, 'r, 'i) curry_shared)" where
  "CurryEnv_step_shared c actions =
     (let action = cs_agent c (cs_last_obs c);
          actions1 = py_insert actions (cs_agent_to_fix c) action
      in case sh_step (cs_env c) (sh_state (cs_env c)) actions1 of
           Inl e \<Rightarrow> Inl e
         | Inr ((observations, rewards, done, infos), actions2, s') \<Rightarrow>
             (case tuple_pop observations (cs_agent_to_fix c) of
                Inl e \<Rightarrow> Inl e
              | Inr (observations', lo) \<Rightarrow>
                  (case tuple_pop rewards (cs_agent_to_fix c) of
                     Inl e \<Rightarrow> Inl e
                   | Inr (rewards', lr) \<Rightarrow>
                       Inr ((observations', rewards', done, infos), actions2,
                            c\<lparr>cs_env := (cs_env c)\<lparr>sh_state := s'\<rparr>,
                              cs_last_obs := Some lo, cs_last_reward := Some lr\<rparr>))))"

text \<open>
  A CurryEnv is itself a multi-agent environment and can be wrapped again (the module's
  FlattenSingletonEnv is to be used "after first applying CurryEnv until there is only
  one agent left").
\<close>

definition curry_as_env ::
  "('s, 'o, 'a, 'r, 'i) curry_shared \<Rightarrow>
   (('s, 'o, 'a, 'r, 'i) curry_shared, 'o, 'a, 'r, 'i) shared_env" where
  "curry_as_env c = \<lparr>sh_step = CurryEnv_step_shared, sh_state = c\<rparr>"

text \<open>An environment whose \<open>step\<close> leaves the list it receives as it is.\<close>

definition env_as_shared ::
  "('s, 'o, 'a, 'r, 'i) multi_env \<Rightarrow> ('s, 'o, 'a, 'r, 'i) shared_env" where
  "env_as_shared env =
     \<lparr>sh_step = (\<lambda>s actions. case env_step env s actions of
                    (res, s') \<Rightarrow> Inr (res, actions, s')),
      sh_state = env_state env\<rparr>"

text \<open>A CurryEnv around an environment of the first form, seen in the second.\<close>

definition curry_shared_view ::
  "('s, 'o, 'a, 'r, 'i) curry_env \<Rightarrow> ('s, 'o, 'a, 'r, 'i) curry_shared" where
  "curry_shared_view c =
     \<lparr>cs_env = env_as_shared (c_env c), cs_agent_to_fix = agent_to_fix c,
      cs_agent = agent c, cs_last_obs = last_obs c, cs_last_reward = last_reward c\<rparr>"

text \<open>The caller's list after a call of \<open>step\<close> that returned.\<close>

definition actions_after ::
  "error + ('res \<times> 'a list \<times> 'c) \<Rightarrow> 'a list option" where
  "actions_after r = (case r of Inl e \<Rightarrow> None | Inr (res, actions', c') \<Rightarrow> Some actions')"

text \<open>Constructing a CurryEnv and calling \<open>step\<close> on it at once, with no \<open>reset\<close> before.\<close>

definition curry_then_step ::
  "('s, 'o, 'a, 'r, 'i) multi_env \<Rightarrow> ('o option \<Rightarrow> 'a) \<Rightarrow> int \<Rightarrow> 'a list \<Rightarrow>
   error + (('o list \<times> 'r list \<times> bool \<times> 'i) \<times> 'a list \<times> ('s, 'o, 'a, 'r, 'i) curry_env)" where
  "curry_then_step env ag agent_idx actions =
     (case CurryEnv_init env ag agent_idx of
        Inl e \<Rightarrow> Inl e
      | Inr c \<Rightarrow> CurryEnv_step c actions)"

text \<open>
  The states of a CurryEnv that calls of \<open>step\<close> and \<open>reset\<close> lead to, from a state \<open>c0\<close>.
\<close>

inductive curry_reach ::
  "('s, 'o, 'a, 'r, 'i) curry_env \<Rightarrow> ('s, 'o, 'a, 'r, 'i) curry_env \<Rightarrow> bool"
  for c0 :: "('s, 'o, 'a, 'r, 'i) curry_env" where
  reach_init: "curry_reach c0 c0"
| reach_step: "curry_reach c0 c \<Longrightarrow> CurryEnv_step c actions = Inr (res, actions', c') \<Longrightarrow>
     curry_reach c0 c'"
| reach_reset: "curry_reach c0 c \<Longrightarrow> CurryEnv_reset c = Inr (obs, c') \<Longrightarrow> curry_reach c0 c'"

text \<open>
  The contract of \<open>MultiAgentEnv\<close> (its docstrings): the two space tuples have
  \<open>num_agents\<close> components, \<open>step\<close> on a list of \<open>num_agents\<close> actions returns one
  observation and one reward per agent, and \<open>reset\<close> one observation per agent.
\<close>

definition multi_agent_env_ok :: "('s, 'o, 'a, 'r, 'i) multi_env \<Rightarrow> bool" where
  "multi_agent_env_ok env =
     (int (length (observation_space env)) = num_agents env \<and>
      int (length (action_space env)) = num_agents env \<and>
      (\<forall>s actions. int (length actions) = num_agents env \<longrightarrow>
         (case env_step env s actions of
            ((observations, rewards, done, infos), s') \<Rightarrow>
              int (length observations) = num_agents env \<and>
              int (length rewards) = num_agents env)) \<and>
      (\<forall>s. int (length (fst (env_reset env s))) = num_agents env))"

text \<open>
  What \<open>step\<close> and \<open>reset\<close> never assign: the fixed agent, its index, and the wrapped
  environment's \<open>step\<close> and \<open>reset\<close>.
\<close>

definition same_static ::
  "('s, 'o, 'a, 'r, 'i) curry_env \<Rightarrow> ('s, 'o, 'a, 'r, 'i) curry_env \<Rightarrow> bool" where
  "same_static c0 c =
     (agent_to_fix c = agent_to_fix c0 \<and> agent c = agent c0 \<and>
      env_step (c_env c) = env_step (c_env c0) \<and>
      env_reset (c_env c) = env_reset (c_env c0))"

section \<open>Vectorized multi-agent environments\<close>

text \<open>
  \<^verbatim>\<open>
  class _TupleToDict(MultiWrapper):
      def __init__(self, env):
          super().__init__(env)
          self.action_space = _tuple_to_dict_space(env.action_space)
          self.observation_space = _tuple_to_dict_space(env.observation_space)
  \<close>
  A Dict space is the association list of its component spaces.
\<close>

record ('s, 'o, 'a, 'r, 'i) tuple_to_dict_env =
  td_env :: "('s, 'o, 'a, 'r, 'i) multi_env"
  td_num_agents :: int
  td_action_space :: "(int \<times> space) list"
  td_observation_space :: "(int \<times> space) list"

definition TupleToDict_init ::
  "('s, 'o, 'a, 'r, 'i) multi_env \<Rightarrow> error + ('s, 'o, 'a, 'r, 'i) tuple_to_dict_env" where
  "TupleToDict_init env =
     (case MultiWrapper_init env of
        Inl e \<Rightarrow> Inl e
      | Inr n \<Rightarrow>
          Inr \<lparr>td_env = env, td_num_agents = n,
               td_action_space = tuple_to_dict (action_space env),
               td_observation_space = tuple_to_dict (observation_space env)\<rparr>)"

text \<open>
  \<^verbatim>\<open>
  def _decorate_tuple_to_dict(env_fn):
      def f():
          env = env_fn()
          return _TupleToDict(env)
      return f
  \<close>
  An environment factory is a function of no argument.
\<close>

definition decorate_tuple_to_dict ::
  "(unit \<Rightarrow> ('s, 'o, 'a, 'r, 'i) multi_env) \<Rightarrow>
   (unit \<Rightarrow> error + ('s, 'o, 'a, 'r, 'i) tuple_to_dict_env)" where
  "decorate_tuple_to_dict env_fn = (\<lambda>_. TupleToDict_init (env_fn ()))"

text \<open>
  \<open>DummyVecEnv.__init__\<close> of the baselines library, which this module builds on, as far
  as the module relies on it: it calls every factory in order, keeps the environments in
  \<open>self.envs\<close>, and takes \<open>num_envs\<close> from the number of factories and the two spaces
  from the first environment.
  \<^verbatim>\<open>
  self.envs = [fn() for fn in env_fns]
  env = self.envs[0]
  VecEnv.__init__(self, len(env_fns), env.observation_space, env.action_space)
  \<close>
\<close>

record ('s, 'o, 'a, 'r, 'i) dummy_vec_env =
  dv_envs :: "('s, 'o, 'a, 'r, 'i) tuple_to_dict_env list"
  dv_num_envs :: int
  dv_observation_space :: "(int \<times> space) list"
  dv_action_space :: "(int \<times> space) list"

definition DummyVecEnv_init ::
  "(unit \<Rightarrow> error + ('s, 'o, 'a, 'r, 'i) tuple_to_dict_env) list \<Rightarrow>
   error + ('s, 'o, 'a, 'r, 'i) dummy_vec_env" where
  "DummyVecEnv_init env_fns =
     (case collect (\<lambda>fn. fn ()) env_fns of
        Inl e \<Rightarrow> Inl e
      | Inr envs \<Rightarrow>
          (case envs of
             [] \<Rightarrow> Inl IndexError
           | env # _ \<Rightarrow>
               Inr \<lparr>dv_envs = envs, dv_num_envs = int (length env_fns),
                    dv_observation_space = td_observation_space env,
                    dv_action_space = td_action_space env\<rparr>))"

text \<open>
  \<^verbatim>\<open>
  class _DummyVecMultiEnv(DummyVecEnv, VecMultiEnv):
      def __init__(self, env_fns):
          DummyVecEnv.__init__(self, env_fns)
          num_agents = getattr_unwrapped(self.envs[0], 'num_agents')
          VecMultiEnv.__init__(self, self.num_envs, num_agents,
                               self.observation_space, self.action_space)
          self.buf_rews = np.zeros((self.num_envs, self.num_agents), dtype=np.float32)
  \<close>
  The reward buffer is represented by its shape.
\<close>

record ('s, 'o, 'a, 'r, 'i) dummy_vec_multi_env =
  vm_base :: "('s, 'o, 'a, 'r, 'i) dummy_vec_env"
  vm_num_agents :: int
  vm_buf_rews_shape :: "int \<times> int"

definition DummyVecMultiEnv_init ::
  "(unit \<Rightarrow> error + ('s, 'o, 'a, 'r, 'i) tuple_to_dict_env) list \<Rightarrow>
   error + ('s, 'o, 'a, 'r, 'i) dummy_vec_multi_env" where
  "DummyVecMultiEnv_init env_fns =
     (case DummyVecEnv_init env_fns of
        Inl e \<Rightarrow> Inl e
      | Inr base \<Rightarrow>
          (case dv_envs base of
             [] \<Rightarrow> Inl IndexError
           | env0 # _ \<Rightarrow>
               (let n = td_num_agents env0 in
                Inr \<lparr>vm_base = base, vm_num_agents = n,
                     vm_buf_rews_shape = (dv_num_envs base, n)\<rparr>)))"

text \<open>
  \<^verbatim>\<open>
  class _DictToTuple(VecMultiWrapper):
      def __init__(self, venv):
          super().__init__(venv)
          self.action_space = _dict_to_tuple_space(venv.action_space)
          self.observation_space = _dict_to_tuple_space(venv.observation_space)
  \<close>
  \<open>VecMultiWrapper.__init__\<close> copies \<open>num_envs\<close> and \<open>num_agents\<close> of \<open>venv\<close>.
\<close>

record ('s, 'o, 'a, 'r, 'i) dict_to_tuple_env =
  dt_venv :: "('s, 'o, 'a, 'r, 'i) dummy_vec_multi_env"
  dt_num_envs :: int
  dt_num_agents :: int
  dt_action_space :: "space list"
  dt_observation_space :: "space list"

definition DictToTuple_init ::
  "('s, 'o, 'a, 'r, 'i) dummy_vec_multi_env \<Rightarrow> error + ('s, 'o, 'a, 'r, 'i) dict_to_tuple_env" where
  "DictToTuple_init venv =
     (case dict_to_tuple (dv_action_space (vm_base venv)) of
        Inl e \<Rightarrow> Inl e
      | Inr act_space \<Rightarrow>
          (case dict_to_tuple (dv_observation_space (vm_base venv)) of
             Inl e \<Rightarrow> Inl e
           | Inr obs_space \<Rightarrow>
               Inr \<lparr>dt_venv = venv, dt_num_envs = dv_num_envs (vm_base venv),
                    dt_num_agents = vm_num_agents venv,
                    dt_action_space = act_space, dt_observation_space = obs_space\<rparr>))"

text \<open>
  \<^verbatim>\<open>
  def _make_vec_multi_env(cls):
      def f(env_fns):
          env_fns = [_decorate_tuple_to_dict(fn) for fn in env_fns]
          venv = cls(env_fns)
          return _DictToTuple(venv)
      return f

  make_dummy_vec_multi_env = _make_vec_multi_env(_DummyVecMultiEnv)
  \<close>
\<close>

definition make_vec_multi_env ::
  "((unit \<Rightarrow> error + ('s, 'o, 'a, 'r, 'i) tuple_to_dict_env) list \<Rightarrow>
      error + ('s, 'o, 'a, 'r, 'i) dummy_vec_multi_env) \<Rightarrow>
   (unit \<Rightarrow> ('s, 'o, 'a, 'r, 'i) multi_env) list \<Rightarrow>
   error + ('s, 'o, 'a, 'r, 'i) dict_to_tuple_env" where
  "make_vec_multi_env cls env_fns =
     (case cls (map decorate_tuple_to_dict env_fns) of
        Inl e \<Rightarrow> Inl e
      | Inr venv \<Rightarrow> DictToTuple_init venv)"

definition make_dummy_vec_multi_env ::
  "(unit \<Rightarrow> ('s, 'o, 'a, 'r, 'i) multi_env) list \<Rightarrow>
   error + ('s, 'o, 'a, 'r, 'i) dict_to_tuple_env" where
  "make_dummy_vec_multi_env = make_vec_multi_env DummyVecMultiEnv_init"

section \<open>Concrete environments\<close>

text \<open>
  A 3-agent and a 2-agent environment with \<open>Discrete(2)\<close> actions, used as concrete
  inputs below. Their state is the last action list they received; their observations
  and rewards are fixed and tell the agents apart.
\<close>

definition example_env3 :: "(int list, int, int, int, unit) multi_env" where
  "example_env3 =
     \<lparr>num_agents = 3,
      observation_space = [Discrete 200, Discrete 200, Discrete 200],
      action_space = [Discrete 2, Discrete 2, Discrete 2],
      env_step = (\<lambda>s actions. (([10, 11, 12], [1, 2, 3], False, ()), actions)),
      env_reset = (\<lambda>s. ([100, 101, 102], [])),
      env_state = []\<rparr>"

definition example_env2 :: "(int list, int, int, int, unit) multi_env" where
  "example_env2 =
     \<lparr>num_agents = 2,
      observation_space = [Discrete 200, Discrete 200],
      action_space = [Discrete 2, Discrete 2],
      env_step = (\<lambda>s actions. (([10, 11], [1, 2], False, ()), actions)),
      env_reset = (\<lambda>s. ([100, 101], [])),
      env_state = []\<rparr>"

text \<open>The fixed policy that always returns action 0.\<close>

definition policy_zero :: "int option \<Rightarrow> int" where
  "policy_zero = (\<lambda>_. 0)"

text \<open>The fixed policy that always returns action 7.\<close>

definition policy_seven :: "int option \<Rightarrow> int" where
  "policy_seven = (\<lambda>_. 7)"

text \<open>
  A CurryEnv around a CurryEnv: the inner one fixes agent index 0 of the 3-agent
  environment with the policy that returns 0, the outer one fixes agent index 0 of the
  inner one with the policy that returns 7; both as their constructors leave them.
\<close>

definition example_inner_curry :: "(int list, int, int, int, unit) curry_shared" where
  "example_inner_curry =
     \<lparr>cs_env = env_as_shared example_env3, cs_agent_to_fix = 0, cs_agent = policy_zero,
      cs_last_obs = None, cs_last_reward = None\<rparr>"

definition example_outer_curry ::
  "((int list, int, int, int, unit) curry_shared, int, int, int, unit) curry_shared" where
  "example_outer_curry =
     \<lparr>cs_env = curry_as_env example_inner_curry, cs_agent_to_fix = 0, cs_agent = policy_seven,
      cs_last_obs = None, cs_last_reward = None\<rparr>"

text \<open>The factories of the two environments.\<close>

definition example_fn3 :: "unit \<Rightarrow> (int list, int, int, int, unit) multi_env" where
  "example_fn3 = (\<lambda>_. example_env3)"

definition example_fn2 :: "unit \<Rightarrow> (int list, int, int, int, unit) multi_env" where
  "example_fn2 = (\<lambda>_. example_env2)"

text \<open>
  A FlattenMultiEnv object over the 3-agent environment, with the identity as flatten and
  unflatten functions and \<open>sum\<close> as the reward aggregation.
\<close>

definition example_flatten_env ::
  "(int list, int, int, int, unit, int list, int list, int) flatten_multi_env" where
  "example_flatten_env =
     \<lparr>fm_env = example_env3,
      fm_observation_space = MultiDiscrete (Arr [Scalar 200, Scalar 200, Scalar 200]),
      fm_action_space = MultiDiscrete (Arr [Scalar 2, Scalar 2, Scalar 2]),
      obs_flatten = Inr, act_unflatten = Inr, reward_agg = sum_list\<rparr>"

section \<open>Properties of the space flattener\<close>

lemma isinstance_Class: "isinstance (Class ty) cls = (cls = TypeC)"
  by (auto simp: isinstance_def)

lemma collect_unbound:
  "collect (\<lambda>x. case load_local (None :: ('a \<Rightarrow> 'b) option) of
                   Inl e \<Rightarrow> Inl e
                 | Inr f \<Rightarrow> Inr (f x)) xs =
     (if xs = [] then Inr [] else Inl NameError)"
  by (cases xs) (simp_all add: load_local_def)

text \<open>
  Claim C2 (round trip of flatten and unflatten). The claim is about the pair of functions
  that \<open>flatten_space\<close> returns. \<open>flatten_space\<close> returns no such pair, whatever the kinds
  of the spaces and whatever the Box branch would compute: on a non-empty tuple it raises
  NameError, since its generator expression reads the local variable \<open>type\<close> before the
  function has assigned it, and on an empty tuple KeyError. The \<open>if\<close> chain after that
  would not return either: it asks whether a class object is an instance of a space
  class, which it never is, and ends in NotImplementedError for every class.
\<close>

theorem flatten_space_always_raises:
  "flatten_space box_branch spaces = Inl (if spaces = [] then KeyError else NameError) \<and>
   flatten_dispatch box_branch (Class cls) spaces = Inl NotImplementedError"
  by (simp add: flatten_space_def collect_unbound flatten_dispatch_def isinstance_Class)

text \<open>
  Claim C3 (a tuple of Discrete spaces flattens to a MultiDiscrete space with identity
  functions). On the tuple \<open>(Discrete(2), Discrete(2))\<close> of the function's own docstring,
  \<open>flatten_space\<close> raises NameError instead of returning \<open>MultiDiscrete([2, 2])\<close>, and its
  \<open>if\<close> chain on the class \<open>Discrete\<close> raises NotImplementedError.
\<close>

theorem flatten_space_discrete_pair:
  "flatten_space box_branch [Discrete 2, Discrete 2] = Inl NameError \<and>
   flatten_dispatch box_branch (Class DiscreteC) [Discrete 2, Discrete 2] =
     Inl NotImplementedError"
  by (simp add: flatten_space_def load_local_def flatten_dispatch_def isinstance_def)

section \<open>Properties of the layout transposer\<close>

lemma check_inner_len_iff:
  "check_inner_len n xs = (if \<forall>x\<in>set xs. length x = n then Inr () else Inl AssertionError)"
  by (induction xs) auto

lemma tuple_transpose_rect:
  assumes "xs \<noteq> []" and "\<forall>x\<in>set xs. length x = n"
  shows "tuple_transpose xs = Inr (map (\<lambda>i. map (\<lambda>x. x ! i) xs) [0..<n])"
proof -
  obtain x0 rest where xs: "xs = x0 # rest" using assms(1) by (cases xs) auto
  have "length x0 = n" using assms(2) xs by simp
  then show ?thesis
    using assms(2) by (simp add: tuple_transpose_def xs check_inner_len_iff)
qed

text \<open>
  Claim C6 (transposing twice gives the original back), as stated for every rectangular
  nested sequence, fails when the inner sequences are empty: the transpose of \<open>[[]]\<close> is
  the empty sequence, which has lost the outer length, and transposing it raises
  IndexError at \<open>xs[0]\<close>.
\<close>

theorem transpose_twice_empty_inner:
  "transpose_twice [[] :: int list] = Inl IndexError"
  by (simp add: transpose_twice_def tuple_transpose_def)

text \<open>
  Claim C6, amended: for a rectangular nested sequence with at least one inner sequence
  (\<open>A \<ge> 1\<close>) and inner sequences of a common length \<open>B \<ge> 1\<close>, both applications of
  \<open>tuple_transpose\<close> return, and the second returns the original sequence.
\<close>

theorem transpose_twice_involution:
  assumes "xs \<noteq> []" and "0 < n" and "\<forall>x\<in>set xs. length x = n"
  shows "transpose_twice xs = Inr xs"
proof -
  let ?ys = "map (\<lambda>i. map (\<lambda>x. x ! i) xs) [0..<n]"
  have t1: "tuple_transpose xs = Inr ?ys"
    using assms(1,3) by (rule tuple_transpose_rect)
  have ne: "?ys \<noteq> []" using assms(2) by simp
  have len: "\<forall>y\<in>set ?ys. length y = length xs" by auto
  have t2: "tuple_transpose ?ys = Inr (map (\<lambda>i. map (\<lambda>y. y ! i) ?ys) [0..<length xs])"
    using ne len by (rule tuple_transpose_rect)
  have "map (\<lambda>i. map (\<lambda>y. y ! i) ?ys) [0..<length xs] = xs"
  proof (rule nth_equalityI)
    show "length (map (\<lambda>i. map (\<lambda>y. y ! i) ?ys) [0..<length xs]) = length xs" by simp
  next
    fix i assume "i < length (map (\<lambda>i. map (\<lambda>y. y ! i) ?ys) [0..<length xs])"
    then have i: "i < length xs" by simp
    then have li: "length (xs ! i) = n" using assms(3) by simp
    have "map (\<lambda>y. y ! i) ?ys = map (\<lambda>j. xs ! i ! j) [0..<n]"
      using i by (simp add: comp_def)
    also have "\<dots> = xs ! i" using li by (metis map_nth)
    finally show "map (\<lambda>i. map (\<lambda>y. y ! i) ?ys) [0..<length xs] ! i = xs ! i"
      using i by simp
  qed
  then show ?thesis using t1 t2 by (simp add: transpose_twice_def)
qed

theorem transpose_twice_involution_witness:
  "[[1, 2, 3], [4, 5, 6 :: int]] \<noteq> [] \<and> (0 :: nat) < 3 \<and>
   length [1, 2, 3 :: int] = 3 \<and> length [4, 5, 6 :: int] = 3 \<and>
   transpose_twice [[1, 2, 3], [4, 5, 6 :: int]] = Inr [[1, 2, 3], [4, 5, 6]]"
  using transpose_twice_involution [of "[[1, 2, 3], [4, 5, 6 :: int]]" 3] by simp

section \<open>Properties of the tuple/mapping bridge\<close>

lemma collect_dict_get:
  "collect (dict_get d) ks =
     (if \<forall>k\<in>set ks. k \<in> fst ` set d then Inr (map (\<lambda>k. the (map_of d k)) ks)
      else Inl KeyError)"
proof (induction ks)
  case Nil
  then show ?case by simp
next
  case (Cons k ks)
  show ?case
  proof (cases "map_of d k")
    case None
    then have "k \<notin> fst ` set d" by (simp add: map_of_eq_None_iff)
    then show ?thesis using None by (simp add: dict_get_def)
  next
    case (Some v)
    then have "k \<in> fst ` set d" by (metis map_of_eq_None_iff option.distinct(1))
    then show ?thesis using Some Cons.IH by (simp add: dict_get_def)
  qed
qed

text \<open>
  Claim C7 (a key set that is not \<open>{0, ..., max_key}\<close> raises the missing-key error), as
  stated, fails when key 0 is the missing one: for the keys \<open>{1, 2}\<close> the function stops at
  \<open>assert min_k == 0\<close> with an AssertionError, before any key is looked up.
\<close>

theorem dict_to_tuple_missing_zero:
  "dict_to_tuple [(1 :: int, 20 :: int), (2, 30)] = Inl AssertionError"
  by (simp add: dict_to_tuple_def)

text \<open>
  Claim C7, amended: on a non-empty mapping whose key set is not \<open>{0, ..., max_key}\<close>,
  \<open>_dict_to_tuple\<close> fails: with KeyError, the missing-key error, when the smallest key is
  0 (so for the keys \<open>{0, 2}\<close>), and with AssertionError when the smallest key is not 0.
\<close>

theorem dict_to_tuple_noncontiguous:
  assumes "d \<noteq> []" and "fst ` set d \<noteq> {0..Max (fst ` set d)}"
  shows "dict_to_tuple d = Inl (if Min (fst ` set d) = 0 then KeyError else AssertionError)"
proof (cases "Min (fst ` set d) = 0")
  case False
  then show ?thesis using assms(1) by (simp add: dict_to_tuple_def)
next
  case True
  let ?K = "fst ` set d"
  have fin: "finite ?K" and ne: "?K \<noteq> {}" using assms(1) by auto
  have sub: "?K \<subseteq> {0..Max ?K}"
  proof
    fix k assume k: "k \<in> ?K"
    then have "Min ?K \<le> k" and "k \<le> Max ?K" using fin by auto
    then show "k \<in> {0..Max ?K}" using True by simp
  qed
  then obtain k where kin: "k \<in> {0..Max ?K}" and knot: "k \<notin> ?K" using assms(2) by blast
  from kin have "k \<in> set [0..Max ?K]" by (simp only: set_upto)
  with knot have "\<not> (\<forall>k\<in>set [0..Max ?K]. k \<in> ?K)" by blast
  then have "collect (dict_get d) [0..Max ?K] = Inl KeyError"
    by (simp only: collect_dict_get if_False)
  then show ?thesis using True assms(1) by (simp add: dict_to_tuple_def)
qed

theorem dict_to_tuple_noncontiguous_witness:
  "[(0 :: int, 10 :: int), (2, 30)] \<noteq> [] \<and>
   fst ` set [(0 :: int, 10 :: int), (2, 30)] \<noteq> {0..Max (fst ` set [(0 :: int, 10 :: int), (2, 30)])} \<and>
   dict_to_tuple [(0 :: int, 10 :: int), (2, 30)] = Inl KeyError"
proof -
  have a: "[(0 :: int, 10 :: int), (2, 30)] \<noteq> []" by simp
  have "(1 :: int) \<in> {0..2}" by simp
  moreover have "(1 :: int) \<notin> {0, 2}" by simp
  ultimately have "{0, 2} \<noteq> {0..2 :: int}" by metis
  then have b: "fst ` set [(0 :: int, 10 :: int), (2, 30)] \<noteq>
      {0..Max (fst ` set [(0 :: int, 10 :: int), (2, 30)])}" by simp
  show ?thesis using a b dict_to_tuple_noncontiguous [OF a b] by simp
qed

section \<open>Properties of CurryEnv\<close>

lemma filter_enumerate_aux:
  "map snd (filter (\<lambda>(i, space). i \<noteq> n + k) (enumerate n xs)) = take k xs @ drop (Suc k) xs"
proof (induction xs arbitrary: n k)
  case Nil
  then show ?case by simp
next
  case (Cons x xs)
  show ?case
  proof (cases k)
    case 0
    have "filter (\<lambda>(i, space). i \<noteq> n) (enumerate (Suc n) xs) = enumerate (Suc n) xs"
      by (rule filter_True) (auto simp: in_set_enumerate_eq)
    then show ?thesis using 0 by simp
  next
    case (Suc j)
    then show ?thesis using Cons.IH [of "Suc n" j] by simp
  qed
qed

lemma tuple_space_filter_in_range:
  assumes "0 \<le> idx"
  shows "tuple_space_filter spaces idx = take (nat idx) spaces @ drop (Suc (nat idx)) spaces"
proof -
  have "(\<lambda>(i, space). int i \<noteq> idx) = (\<lambda>(i, space :: 'a). i \<noteq> 0 + nat idx)"
    using assms by (auto simp: fun_eq_iff)
  then show ?thesis
    unfolding tuple_space_filter_def by (simp only: filter_enumerate_aux)
qed

lemma length_tuple_space_filter:
  assumes "0 \<le> idx" and "idx < int (length spaces)"
  shows "int (length (tuple_space_filter spaces idx)) = int (length spaces) - 1"
  using assms by (simp add: tuple_space_filter_in_range)

lemma tuple_pop_in_range:
  assumes "0 \<le> idx" and "idx < int (length xs)"
  shows "tuple_pop xs idx = Inr (take (nat idx) xs @ drop (Suc (nat idx)) xs, xs ! nat idx)"
  using assms by (simp add: tuple_pop_def py_pop_def)

lemma length_py_insert: "length (py_insert xs i x) = Suc (length xs)"
  by (simp add: py_insert_def Let_def)

lemma py_insert_in_range:
  assumes "0 \<le> i" and "i \<le> int (length xs)"
  shows "py_insert xs i x = take (nat i) xs @ [x] @ drop (nat i) xs"
  using assms by (simp add: py_insert_def Let_def)


lemma CurryEnv_init_ok:
  assumes "multi_agent_env_ok env" and "1 \<le> num_agents env"
  shows "CurryEnv_init env ag idx =
     Inr \<lparr>c_env = env, c_num_agents = num_agents env - 1,
          c_observation_space = tuple_space_filter (observation_space env) idx,
          c_action_space = tuple_space_filter (action_space env) idx,
          agent_to_fix = idx, agent = ag, last_obs = None, last_reward = None\<rparr>"
  using assms by (simp add: CurryEnv_init_def MultiWrapper_init_def multi_agent_env_ok_def)

lemma CurryEnv_step_InrE:
  assumes "CurryEnv_step c actions = Inr (res, actions', c')"
  obtains observations rewards dn infos s' obs' lo rews' lr where
    "env_step (c_env c) (env_state (c_env c))
       (py_insert actions (agent_to_fix c) (agent c (last_obs c))) =
       ((observations, rewards, dn, infos), s')"
    and "tuple_pop observations (agent_to_fix c) = Inr (obs', lo)"
    and "tuple_pop rewards (agent_to_fix c) = Inr (rews', lr)"
    and "res = (obs', rews', dn, infos)"
    and "actions' = py_insert actions (agent_to_fix c) (agent c (last_obs c))"
    and "c' = c\<lparr>c_env := (c_env c)\<lparr>env_state := s'\<rparr>, last_obs := Some lo, last_reward := Some lr\<rparr>"
proof -
  obtain observations rewards dn infos s' where
    e: "env_step (c_env c) (env_state (c_env c))
       (py_insert actions (agent_to_fix c) (agent c (last_obs c))) =
       ((observations, rewards, dn, infos), s')"
    by (metis prod.exhaust)
  show ?thesis
  proof (cases "tuple_pop observations (agent_to_fix c)")
    case (Inl err)
    then show ?thesis using assms e by (simp add: CurryEnv_step_def)
  next
    case (Inr p)
    then obtain obs' lo where p: "tuple_pop observations (agent_to_fix c) = Inr (obs', lo)"
      by (cases p) simp
    show ?thesis
    proof (cases "tuple_pop rewards (agent_to_fix c)")
      case (Inl err)
      then show ?thesis using assms e p by (simp add: CurryEnv_step_def)
    next
      case (Inr q)
      then obtain rews' lr where q: "tuple_pop rewards (agent_to_fix c) = Inr (rews', lr)"
        by (cases q) simp
      have "Inr ((obs', rews', dn, infos), py_insert actions (agent_to_fix c) (agent c (last_obs c)),
                 c\<lparr>c_env := (c_env c)\<lparr>env_state := s'\<rparr>, last_obs := Some lo, last_reward := Some lr\<rparr>)
            = (Inr (res, actions', c') :: error + _)"
        using assms e p q by (simp add: CurryEnv_step_def)
      then have "res = (obs', rews', dn, infos)"
        and "actions' = py_insert actions (agent_to_fix c) (agent c (last_obs c))"
        and "c' = c\<lparr>c_env := (c_env c)\<lparr>env_state := s'\<rparr>, last_obs := Some lo, last_reward := Some lr\<rparr>"
        by (simp_all only: sum.inject prod.inject)
      with e p q show ?thesis by (rule that)
    qed
  qed
qed


lemma CurryEnv_reset_InrE:
  assumes "CurryEnv_reset c = Inr (obs, c')"
  obtains observations s' lo where
    "env_reset (c_env c) (env_state (c_env c)) = (observations, s')"
    and "tuple_pop observations (agent_to_fix c) = Inr (obs, lo)"
    and "c' = c\<lparr>c_env := (c_env c)\<lparr>env_state := s'\<rparr>, last_obs := Some lo\<rparr>"
proof -
  obtain observations s' where
    e: "env_reset (c_env c) (env_state (c_env c)) = (observations, s')"
    by (metis prod.exhaust)
  show ?thesis
  proof (cases "tuple_pop observations (agent_to_fix c)")
    case (Inl err)
    then show ?thesis using assms e by (simp add: CurryEnv_reset_def)
  next
    case (Inr p)
    then obtain obs' lo where p: "tuple_pop observations (agent_to_fix c) = Inr (obs', lo)"
      by (cases p) simp
    have "Inr (obs', c\<lparr>c_env := (c_env c)\<lparr>env_state := s'\<rparr>, last_obs := Some lo\<rparr>)
            = (Inr (obs, c') :: error + _)"
      using assms e p by (simp add: CurryEnv_reset_def)
    then have "obs' = obs"
      and "c' = c\<lparr>c_env := (c_env c)\<lparr>env_state := s'\<rparr>, last_obs := Some lo\<rparr>"
      by (simp_all only: sum.inject prod.inject)
    with e p show ?thesis using that by blast
  qed
qed

lemma curry_reach_static:
  assumes "curry_reach c0 c"
  shows "same_static c0 c"
  using assms
proof (induction rule: curry_reach.induct)
  case reach_init
  show ?case by (simp add: same_static_def)
next
  case (reach_step c actions res actions' c')
  from reach_step(2) obtain s' lo lr where
    "c' = c\<lparr>c_env := (c_env c)\<lparr>env_state := s'\<rparr>, last_obs := Some lo, last_reward := Some lr\<rparr>"
    by (rule CurryEnv_step_InrE)
  then have "same_static c c'" by (simp add: same_static_def)
  then show ?case using reach_step.IH by (simp add: same_static_def)
next
  case (reach_reset c obs c')
  from reach_reset(2) obtain s' lo where
    "c' = c\<lparr>c_env := (c_env c)\<lparr>env_state := s'\<rparr>, last_obs := Some lo\<rparr>"
    by (rule CurryEnv_reset_InrE)
  then have "same_static c c'" by (simp add: same_static_def)
  then show ?case using reach_reset.IH by (simp add: same_static_def)
qed


lemma CurryEnv_step_ok:
  assumes e: "env_step (c_env c) (env_state (c_env c))
       (py_insert actions (agent_to_fix c) (agent c (last_obs c))) =
       ((observations, rewards, dn, infos), s')"
    and "0 \<le> agent_to_fix c"
    and "agent_to_fix c < int (length observations)"
    and "agent_to_fix c < int (length rewards)"
  shows "CurryEnv_step c actions =
     Inr ((take (nat (agent_to_fix c)) observations @ drop (Suc (nat (agent_to_fix c))) observations,
           take (nat (agent_to_fix c)) rewards @ drop (Suc (nat (agent_to_fix c))) rewards,
           dn, infos),
          py_insert actions (agent_to_fix c) (agent c (last_obs c)),
          c\<lparr>c_env := (c_env c)\<lparr>env_state := s'\<rparr>,
            last_obs := Some (observations ! nat (agent_to_fix c)),
            last_reward := Some (rewards ! nat (agent_to_fix c))\<rparr>)"
  using assms(2-4) by (simp add: CurryEnv_step_def e tuple_pop_in_range)

lemma CurryEnv_reset_ok:
  assumes e: "env_reset (c_env c) (env_state (c_env c)) = (observations, s')"
    and "0 \<le> agent_to_fix c"
    and "agent_to_fix c < int (length observations)"
  shows "CurryEnv_reset c =
     Inr (take (nat (agent_to_fix c)) observations @ drop (Suc (nat (agent_to_fix c))) observations,
          c\<lparr>c_env := (c_env c)\<lparr>env_state := s'\<rparr>,
            last_obs := Some (observations ! nat (agent_to_fix c))\<rparr>)"
  using assms(2-3) by (simp add: CurryEnv_reset_def e tuple_pop_in_range)

lemma env_ok_step:
  assumes "multi_agent_env_ok env"
    and "int (length actions) = num_agents env"
    and "env_step env s actions = ((observations, rewards, dn, infos), s')"
  shows "int (length observations) = num_agents env \<and> int (length rewards) = num_agents env"
proof -
  from assms(1) have a: "\<forall>s actions. int (length actions) = num_agents env \<longrightarrow>
         (case env_step env s actions of
            ((observations, rewards, dn, infos), s') \<Rightarrow>
              int (length observations) = num_agents env \<and>
              int (length rewards) = num_agents env)"
    by (simp add: multi_agent_env_ok_def)
  from a [rule_format, of actions s, OF assms(2)] show ?thesis by (simp add: assms(3))
qed

lemma env_ok_reset:
  assumes "multi_agent_env_ok env"
    and "env_reset env s = (observations, s')"
  shows "int (length observations) = num_agents env"
proof -
  from assms(1) have a: "\<forall>s. int (length (fst (env_reset env s))) = num_agents env"
    by (simp add: multi_agent_env_ok_def)
  from a [rule_format, of s] show ?thesis by (simp add: assms(2))
qed

lemma length_take_drop:
  assumes "0 \<le> idx" and "idx < int (length xs)"
  shows "int (length (take (nat idx) xs @ drop (Suc (nat idx)) xs)) = int (length xs) - 1"
  using assms by simp

lemma curry_reach_step_returns:
  assumes ok: "multi_agent_env_ok env" and i0: "0 \<le> idx" and i1: "idx < num_agents env"
    and st: "same_static c0 c" and e0: "c_env c0 = env" and a0: "agent_to_fix c0 = idx"
    and al: "int (length actions) = num_agents env - 1"
  shows "\<exists>obs rews dn infos c'.
           CurryEnv_step c actions =
             Inr ((obs, rews, dn, infos), py_insert actions idx (agent c (last_obs c)), c') \<and>
           int (length obs) = num_agents env - 1 \<and> int (length rews) = num_agents env - 1"
proof -
  have idx: "agent_to_fix c = idx" and stp: "env_step (c_env c) = env_step env"
    using st e0 a0 by (simp_all add: same_static_def)
  obtain observations rewards dn infos s' where
    e: "env_step (c_env c) (env_state (c_env c))
          (py_insert actions (agent_to_fix c) (agent c (last_obs c))) =
        ((observations, rewards, dn, infos), s')"
    by (metis prod.exhaust)
  then have e2: "env_step env (env_state (c_env c))
          (py_insert actions (agent_to_fix c) (agent c (last_obs c))) =
        ((observations, rewards, dn, infos), s')"
    by (simp add: stp)
  have l2: "int (length (py_insert actions (agent_to_fix c) (agent c (last_obs c)))) =
      num_agents env"
    using al by (simp add: length_py_insert)
  have len: "int (length observations) = num_agents env \<and>
      int (length rewards) = num_agents env"
    using ok l2 e2 by (rule env_ok_step)
  have r: "0 \<le> agent_to_fix c" "agent_to_fix c < int (length observations)"
      "agent_to_fix c < int (length rewards)"
    using i0 i1 idx len by simp_all
  note s = CurryEnv_step_ok [OF e r]
  have "int (length (take (nat idx) observations @ drop (Suc (nat idx)) observations)) = num_agents env - 1"
    using length_take_drop [of idx observations] i0 i1 len by simp
  moreover have "int (length (take (nat idx) rewards @ drop (Suc (nat idx)) rewards)) = num_agents env - 1"
    using length_take_drop [of idx rewards] i0 i1 len by simp
  ultimately show ?thesis using s unfolding idx by blast
qed

lemma curry_reach_reset_returns:
  assumes ok: "multi_agent_env_ok env" and i0: "0 \<le> idx" and i1: "idx < num_agents env"
    and st: "same_static c0 c" and e0: "c_env c0 = env" and a0: "agent_to_fix c0 = idx"
  shows "\<exists>obs c'. CurryEnv_reset c = Inr (obs, c') \<and> int (length obs) = num_agents env - 1"
proof -
  have idx: "agent_to_fix c = idx" and rst: "env_reset (c_env c) = env_reset env"
    using st e0 a0 by (simp_all add: same_static_def)
  obtain observations s' where
    e: "env_reset (c_env c) (env_state (c_env c)) = (observations, s')"
    by (metis prod.exhaust)
  then have "env_reset env (env_state (c_env c)) = (observations, s')"
    by (simp add: rst)
  with ok have len: "int (length observations) = num_agents env"
    by (rule env_ok_reset)
  have r: "0 \<le> agent_to_fix c" "agent_to_fix c < int (length observations)"
    using i0 i1 idx len by simp_all
  note s = CurryEnv_reset_ok [OF e r]
  have "int (length (take (nat idx) observations @ drop (Suc (nat idx)) observations)) = num_agents env - 1"
    using length_take_drop [of idx observations] i0 i1 len by simp
  then show ?thesis using s unfolding idx by blast
qed

lemma example_env3_ok: "multi_agent_env_ok example_env3"
  by (simp add: multi_agent_env_ok_def example_env3_def)

text \<open>
  Claim C8 (agent count after currying). For an environment that keeps the MultiAgentEnv
  contract with \<open>N = num_agents \<ge> 1\<close> agents and an agent index \<open>0 \<le> idx < N\<close>: the
  constructor returns a CurryEnv with \<open>num_agents = N - 1\<close>, whose observation and action
  space tuples are those of the environment without component \<open>idx\<close> and have \<open>N - 1\<close>
  components; and in every state that calls of \<open>step\<close> and \<open>reset\<close> lead to, \<open>step\<close> (on
  any list of \<open>N - 1\<close> actions) and \<open>reset\<close> return, with \<open>N - 1\<close> observations and, for
  \<open>step\<close>, \<open>N - 1\<close> rewards.
\<close>

theorem curry_agent_count:
  fixes env :: "('s, 'o, 'a, 'r, 'i) multi_env"
  assumes ok: "multi_agent_env_ok env" and n: "1 \<le> num_agents env"
    and i0: "0 \<le> idx" and i1: "idx < num_agents env"
  shows "\<exists>c0. CurryEnv_init env ag idx = Inr c0 \<and>
      c_num_agents c0 = num_agents env - 1 \<and>
      c_observation_space c0 =
        take (nat idx) (observation_space env) @ drop (Suc (nat idx)) (observation_space env) \<and>
      c_action_space c0 =
        take (nat idx) (action_space env) @ drop (Suc (nat idx)) (action_space env) \<and>
      int (length (c_observation_space c0)) = num_agents env - 1 \<and>
      int (length (c_action_space c0)) = num_agents env - 1 \<and>
      (\<forall>c. curry_reach c0 c \<longrightarrow>
         (\<forall>actions. int (length actions) = num_agents env - 1 \<longrightarrow>
            (\<exists>obs rews dn infos actions' c'.
               CurryEnv_step c actions = Inr ((obs, rews, dn, infos), actions', c') \<and>
               int (length obs) = num_agents env - 1 \<and>
               int (length rews) = num_agents env - 1)) \<and>
         (\<exists>obs c'. CurryEnv_reset c = Inr (obs, c') \<and>
            int (length obs) = num_agents env - 1))"
proof -
  let ?c0 = "\<lparr>c_env = env, c_num_agents = num_agents env - 1,
          c_observation_space = tuple_space_filter (observation_space env) idx,
          c_action_space = tuple_space_filter (action_space env) idx,
          agent_to_fix = idx, agent = ag, last_obs = None, last_reward = None\<rparr>"
  have init: "CurryEnv_init env ag idx = Inr ?c0"
    using ok n by (rule CurryEnv_init_ok)
  have lo: "int (length (observation_space env)) = num_agents env"
    and la: "int (length (action_space env)) = num_agents env"
    using ok by (simp_all add: multi_agent_env_ok_def)
  have so: "c_observation_space ?c0 =
        take (nat idx) (observation_space env) @ drop (Suc (nat idx)) (observation_space env)"
    using i0 by (simp add: tuple_space_filter_in_range)
  have sa: "c_action_space ?c0 =
        take (nat idx) (action_space env) @ drop (Suc (nat idx)) (action_space env)"
    using i0 by (simp add: tuple_space_filter_in_range)
  have no: "int (length (c_observation_space ?c0)) = num_agents env - 1"
    using length_tuple_space_filter [of idx "observation_space env"] i0 i1 lo by simp
  have na: "int (length (c_action_space ?c0)) = num_agents env - 1"
    using length_tuple_space_filter [of idx "action_space env"] i0 i1 la by simp
  have reach: "\<forall>c. curry_reach ?c0 c \<longrightarrow>
         (\<forall>actions. int (length actions) = num_agents env - 1 \<longrightarrow>
            (\<exists>obs rews dn infos actions' c'.
               CurryEnv_step c actions = Inr ((obs, rews, dn, infos), actions', c') \<and>
               int (length obs) = num_agents env - 1 \<and>
               int (length rews) = num_agents env - 1)) \<and>
         (\<exists>obs c'. CurryEnv_reset c = Inr (obs, c') \<and>
            int (length obs) = num_agents env - 1)"
  proof (intro allI impI conjI)
    fix c and actions :: "'a list"
    assume "curry_reach ?c0 c" and al: "int (length actions) = num_agents env - 1"
    then have st: "same_static ?c0 c" using curry_reach_static by blast
    have "\<exists>obs rews dn infos c'.
           CurryEnv_step c actions =
             Inr ((obs, rews, dn, infos), py_insert actions idx (agent c (last_obs c)), c') \<and>
           int (length obs) = num_agents env - 1 \<and> int (length rews) = num_agents env - 1"
      using ok i0 i1 st by (rule curry_reach_step_returns) (simp_all add: al)
    then show "\<exists>obs rews dn infos actions' c'.
            CurryEnv_step c actions = Inr ((obs, rews, dn, infos), actions', c') \<and>
            int (length obs) = num_agents env - 1 \<and>
            int (length rews) = num_agents env - 1" by blast
  next
    fix c assume "curry_reach ?c0 c"
    then have st: "same_static ?c0 c" by (rule curry_reach_static)
    show "\<exists>obs c'. CurryEnv_reset c = Inr (obs, c') \<and> int (length obs) = num_agents env - 1"
      using ok i0 i1 st by (rule curry_reach_reset_returns) simp_all
  qed
  have "c_num_agents ?c0 = num_agents env - 1" by simp
  with init so sa no na reach show ?thesis by blast
qed

theorem curry_agent_count_witness:
  "multi_agent_env_ok example_env3 \<and> 1 \<le> num_agents example_env3 \<and>
   (0 :: int) \<le> 1 \<and> 1 < num_agents example_env3 \<and>
   (\<exists>c0. CurryEnv_init example_env3 policy_zero 1 = Inr c0 \<and>
      c_num_agents c0 = 2 \<and>
      c_observation_space c0 = [Discrete 200, Discrete 200] \<and>
      c_action_space c0 = [Discrete 2, Discrete 2] \<and>
      (\<exists>obs rews dn infos actions' c'.
         CurryEnv_step c0 [1, 1] = Inr ((obs, rews, dn, infos), actions', c') \<and>
         length obs = 2 \<and> length rews = 2) \<and>
      (\<exists>obs c'. CurryEnv_reset c0 = Inr (obs, c') \<and> length obs = 2))"
proof -
  have ok: "multi_agent_env_ok example_env3" by (rule example_env3_ok)
  have n: "1 \<le> num_agents example_env3" by (simp add: example_env3_def)
  have i0: "(0 :: int) \<le> 1" by simp
  have i1: "1 < num_agents example_env3" by (simp add: example_env3_def)
  from curry_agent_count [OF ok n i0 i1, of policy_zero]
  obtain c0 where init: "CurryEnv_init example_env3 policy_zero 1 = Inr c0"
    and na: "c_num_agents c0 = num_agents example_env3 - 1"
    and os: "c_observation_space c0 =
        take (nat 1) (observation_space example_env3) @
        drop (Suc (nat 1)) (observation_space example_env3)"
    and as: "c_action_space c0 =
        take (nat 1) (action_space example_env3) @
        drop (Suc (nat 1)) (action_space example_env3)"
    and reach: "\<forall>c. curry_reach c0 c \<longrightarrow>
         (\<forall>actions. int (length actions) = num_agents example_env3 - 1 \<longrightarrow>
            (\<exists>obs rews dn infos actions' c'.
               CurryEnv_step c actions = Inr ((obs, rews, dn, infos), actions', c') \<and>
               int (length obs) = num_agents example_env3 - 1 \<and>
               int (length rews) = num_agents example_env3 - 1)) \<and>
         (\<exists>obs c'. CurryEnv_reset c = Inr (obs, c') \<and>
            int (length obs) = num_agents example_env3 - 1)"
    by blast
  have r0: "curry_reach c0 c0" by (rule reach_init)
  have na': "c_num_agents c0 = 2" using na by (simp add: example_env3_def)
  have os': "c_observation_space c0 = [Discrete 200, Discrete 200]"
    using os by (simp add: example_env3_def)
  have as': "c_action_space c0 = [Discrete 2, Discrete 2]"
    using as by (simp add: example_env3_def)
  have al: "int (length [1, 1 :: int]) = num_agents example_env3 - 1"
    by (simp add: example_env3_def)
  from reach r0 al obtain obs rews dn infos actions' c' where
    "CurryEnv_step c0 [1, 1] = Inr ((obs, rews, dn, infos), actions', c')"
    "int (length obs) = num_agents example_env3 - 1"
    "int (length rews) = num_agents example_env3 - 1"
    by blast
  then have st: "\<exists>obs rews dn infos actions' c'.
         CurryEnv_step c0 [1, 1] = Inr ((obs, rews, dn, infos), actions', c') \<and>
         length obs = 2 \<and> length rews = 2"
    by (simp add: example_env3_def)
  from reach r0 obtain obs c' where
    "CurryEnv_reset c0 = Inr (obs, c')" "int (length obs) = num_agents example_env3 - 1"
    by blast
  then have rs: "\<exists>obs c'. CurryEnv_reset c0 = Inr (obs, c') \<and> length obs = 2"
    by (simp add: example_env3_def)
  have "\<exists>c0. CurryEnv_init example_env3 policy_zero 1 = Inr c0 \<and>
      c_num_agents c0 = 2 \<and>
      c_observation_space c0 = [Discrete 200, Discrete 200] \<and>
      c_action_space c0 = [Discrete 2, Discrete 2] \<and>
      (\<exists>obs rews dn infos actions' c'.
         CurryEnv_step c0 [1, 1] = Inr ((obs, rews, dn, infos), actions', c') \<and>
         length obs = 2 \<and> length rews = 2) \<and>
      (\<exists>obs c'. CurryEnv_reset c0 = Inr (obs, c') \<and> length obs = 2)"
    using init na' os' as' st rs by blast
  then show ?thesis using ok n i1 by simp
qed

lemma py_insert_scenario: "py_insert [1, 1 :: int] 1 0 = [1, 0, 1]"
  by (simp add: py_insert_def)

text \<open>
  Claim C1 (the curry scenario). For a 3-agent environment whose action spaces are
  \<open>Discrete(2)\<close>, currying agent index 1 with the policy that always returns 0 gives a
  2-agent CurryEnv; in every state of it that calls of \<open>step\<close> and \<open>reset\<close> lead to,
  \<open>step([1, 1])\<close> calls the environment's \<open>step\<close> on \<open>[1, 0, 1]\<close> (the result and the
  new state are those of that call, and the list passed is \<open>[1, 0, 1]\<close>) and returns the
  observations and rewards of the original indices 0 and 2, in this order; those of
  index 1 are kept for the fixed agent.
\<close>

theorem curry_step_scenario:
  fixes env :: "('s, 'o, int, 'r, 'i) multi_env"
  assumes na: "num_agents env = 3"
    and os: "length (observation_space env) = 3"
    and as: "action_space env = [Discrete 2, Discrete 2, Discrete 2]"
  shows "\<exists>c0. CurryEnv_init env (\<lambda>_. 0) 1 = Inr c0 \<and> c_num_agents c0 = 2 \<and>
     (\<forall>c. curry_reach c0 c \<longrightarrow>
        (\<forall>o0 o1 o2 r0 r1 r2 dn infos s'.
           env_step env (env_state (c_env c)) [1, 0, 1] =
             (([o0, o1, o2], [r0, r1, r2], dn, infos), s') \<longrightarrow>
           (\<exists>c'. CurryEnv_step c [1, 1] = Inr (([o0, o2], [r0, r2], dn, infos), [1, 0, 1], c') \<and>
                 env_state (c_env c') = s' \<and> last_obs c' = Some o1 \<and>
                 last_reward c' = Some r1)))"
proof -
  let ?c0 = "\<lparr>c_env = env, c_num_agents = num_agents env - 1,
          c_observation_space = tuple_space_filter (observation_space env) 1,
          c_action_space = tuple_space_filter (action_space env) 1,
          agent_to_fix = 1, agent = (\<lambda>_. 0), last_obs = None, last_reward = None\<rparr>"
  have init: "CurryEnv_init env (\<lambda>_. 0) 1 = Inr ?c0"
    using na os as by (simp add: CurryEnv_init_def MultiWrapper_init_def)
  have n2: "c_num_agents ?c0 = 2" using na by simp
  have step: "\<forall>c. curry_reach ?c0 c \<longrightarrow>
        (\<forall>o0 o1 o2 r0 r1 r2 dn infos s'.
           env_step env (env_state (c_env c)) [1, 0, 1] =
             (([o0, o1, o2], [r0, r1, r2], dn, infos), s') \<longrightarrow>
           (\<exists>c'. CurryEnv_step c [1, 1] = Inr (([o0, o2], [r0, r2], dn, infos), [1, 0, 1], c') \<and>
                 env_state (c_env c') = s' \<and> last_obs c' = Some o1 \<and>
                 last_reward c' = Some r1))"
  proof (intro allI impI)
    fix c o0 o1 o2 r0 r1 r2 dn infos s'
    assume "curry_reach ?c0 c"
      and e: "env_step env (env_state (c_env c)) [1, 0, 1] =
             (([o0, o1, o2], [r0, r1, r2], dn, infos), s')"
    then have "same_static ?c0 c" using curry_reach_static by blast
    then have idx: "agent_to_fix c = 1" and ag: "agent c = (\<lambda>_. 0)"
      and stp: "env_step (c_env c) = env_step env"
      by (simp_all add: same_static_def)
    have ins: "py_insert [1, 1] (agent_to_fix c) (agent c (last_obs c)) = [1, 0, 1]"
      by (simp add: idx ag py_insert_scenario)
    have e': "env_step (c_env c) (env_state (c_env c))
          (py_insert [1, 1] (agent_to_fix c) (agent c (last_obs c))) =
        (([o0, o1, o2], [r0, r1, r2], dn, infos), s')"
      by (simp only: ins stp e)
    have "CurryEnv_step c [1, 1] =
       Inr (([o0, o2], [r0, r2], dn, infos), [1, 0, 1],
            c\<lparr>c_env := (c_env c)\<lparr>env_state := s'\<rparr>, last_obs := Some o1, last_reward := Some r1\<rparr>)"
      using CurryEnv_step_ok [OF e'] by (simp add: idx ag py_insert_scenario)
    then show "\<exists>c'. CurryEnv_step c [1, 1] = Inr (([o0, o2], [r0, r2], dn, infos), [1, 0, 1], c') \<and>
                 env_state (c_env c') = s' \<and> last_obs c' = Some o1 \<and>
                 last_reward c' = Some r1"
      by simp
  qed
  show ?thesis using init n2 step by blast
qed

theorem curry_step_scenario_witness:
  "num_agents example_env3 = 3 \<and> length (observation_space example_env3) = 3 \<and>
   action_space example_env3 = [Discrete 2, Discrete 2, Discrete 2] \<and>
   (\<exists>c0 c'. CurryEnv_init example_env3 policy_zero 1 = Inr c0 \<and>
      CurryEnv_step c0 [1, 1] = Inr (([10, 12], [1, 3], False, ()), [1, 0, 1], c') \<and>
      env_state (c_env c') = [1, 0, 1] \<and> last_obs c' = Some 11 \<and> last_reward c' = Some 2)"
proof -
  have na: "num_agents example_env3 = 3" by (simp add: example_env3_def)
  have os: "length (observation_space example_env3) = 3" by (simp add: example_env3_def)
  have as: "action_space example_env3 = [Discrete 2, Discrete 2, Discrete 2]"
    by (simp add: example_env3_def)
  from curry_step_scenario [OF na os as]
  obtain c0 where init: "CurryEnv_init example_env3 (\<lambda>_. 0) 1 = Inr c0"
    and step: "\<forall>c. curry_reach c0 c \<longrightarrow>
        (\<forall>o0 o1 o2 r0 r1 r2 dn infos s'.
           env_step example_env3 (env_state (c_env c)) [1, 0, 1] =
             (([o0, o1, o2], [r0, r1, r2], dn, infos), s') \<longrightarrow>
           (\<exists>c'. CurryEnv_step c [1, 1] = Inr (([o0, o2], [r0, r2], dn, infos), [1, 0, 1], c') \<and>
                 env_state (c_env c') = s' \<and> last_obs c' = Some o1 \<and>
                 last_reward c' = Some r1))"
    by blast
  have r0: "curry_reach c0 c0" by (rule reach_init)
  have e: "env_step example_env3 (env_state (c_env c0)) [1, 0, 1] =
             (([10, 11, 12], [1, 2, 3], False, ()), [1, 0, 1])"
    by (simp add: example_env3_def)
  from step r0 e obtain c' where
    "CurryEnv_step c0 [1, 1] = Inr (([10, 12], [1, 3], False, ()), [1, 0, 1], c')"
    "env_state (c_env c') = [1, 0, 1]" "last_obs c' = Some 11" "last_reward c' = Some 2"
    by blast
  then have "\<exists>c0 c'. CurryEnv_init example_env3 policy_zero 1 = Inr c0 \<and>
      CurryEnv_step c0 [1, 1] = Inr (([10, 12], [1, 3], False, ()), [1, 0, 1], c') \<and>
      env_state (c_env c') = [1, 0, 1] \<and> last_obs c' = Some 11 \<and> last_reward c' = Some 2"
    using init unfolding policy_zero_def by blast
  then show ?thesis using na os as by simp
qed

text \<open>
  Claim C4 (\<open>step\<close> before \<open>reset\<close> fails), as stated, does not hold: on the CurryEnv of
  the 3-agent environment and the constant policy, \<open>step([1, 1])\<close> right after the
  constructor raises nothing. The constructor sets the last observation to \<open>None\<close> and
  \<open>step\<close> has no test of it.
\<close>

theorem curry_step_before_reset:
  "\<not> isl (curry_then_step example_env3 policy_zero 1 [1, 1])"
  by (simp add: curry_then_step_def CurryEnv_init_def MultiWrapper_init_def CurryEnv_step_def
      example_env3_def policy_zero_def py_insert_def tuple_pop_def py_pop_def Let_def)

text \<open>
  Claim C4, amended: \<open>step\<close> on a CurryEnv that was never reset does not fail for that
  reason. It asks the fixed policy for an action on the unset observation \<open>None\<close>, inserts
  that action at the curried index and carries on as any other step: for an environment
  that keeps the MultiAgentEnv contract, an index \<open>0 \<le> idx < N\<close> and \<open>N - 1\<close> actions it
  returns \<open>N - 1\<close> observations and rewards.
\<close>

theorem curry_step_without_reset:
  assumes ok: "multi_agent_env_ok env" and n: "1 \<le> num_agents env"
    and i0: "0 \<le> idx" and i1: "idx < num_agents env"
    and al: "int (length actions) = num_agents env - 1"
  shows "\<exists>obs rews dn infos c'.
           curry_then_step env ag idx actions =
             Inr ((obs, rews, dn, infos), py_insert actions idx (ag None), c') \<and>
           int (length obs) = num_agents env - 1 \<and> int (length rews) = num_agents env - 1"
proof -
  let ?c0 = "\<lparr>c_env = env, c_num_agents = num_agents env - 1,
          c_observation_space = tuple_space_filter (observation_space env) idx,
          c_action_space = tuple_space_filter (action_space env) idx,
          agent_to_fix = idx, agent = ag, last_obs = None, last_reward = None\<rparr>"
  have init: "CurryEnv_init env ag idx = Inr ?c0"
    using ok n by (rule CurryEnv_init_ok)
  have st: "same_static ?c0 ?c0" by (simp add: same_static_def)
  have "\<exists>obs rews dn infos c'.
           CurryEnv_step ?c0 actions =
             Inr ((obs, rews, dn, infos), py_insert actions idx (agent ?c0 (last_obs ?c0)), c') \<and>
           int (length obs) = num_agents env - 1 \<and> int (length rews) = num_agents env - 1"
    using ok i0 i1 st by (rule curry_reach_step_returns) (simp_all add: al)
  then show ?thesis by (simp add: curry_then_step_def init)
qed

theorem curry_step_without_reset_witness:
  "multi_agent_env_ok example_env3 \<and> 1 \<le> num_agents example_env3 \<and>
   (0 :: int) \<le> 1 \<and> 1 < num_agents example_env3 \<and>
   int (length [1, 1 :: int]) = num_agents example_env3 - 1 \<and>
   (\<exists>obs rews dn infos c'.
      curry_then_step example_env3 policy_zero 1 [1, 1] =
        Inr ((obs, rews, dn, infos), [1, 0, 1], c'))"
proof -
  have ok: "multi_agent_env_ok example_env3" by (rule example_env3_ok)
  have n: "1 \<le> num_agents example_env3" by (simp add: example_env3_def)
  have i0: "(0 :: int) \<le> 1" by simp
  have i1: "1 < num_agents example_env3" by (simp add: example_env3_def)
  have al: "int (length [1, 1 :: int]) = num_agents example_env3 - 1"
    by (simp add: example_env3_def)
  have "py_insert [1, 1] 1 (policy_zero None) = [1, 0, 1]"
    by (simp add: policy_zero_def py_insert_scenario)
  then have "\<exists>obs rews dn infos c'.
      curry_then_step example_env3 policy_zero 1 [1, 1] =
        Inr ((obs, rews, dn, infos), [1, 0, 1], c')"
    using curry_step_without_reset [OF ok n i0 i1 al, of policy_zero] by auto
  then show ?thesis using ok n i1 al by simp
qed

text \<open>
  Around an environment that leaves the list alone, \<open>CurryEnv_step_shared\<close> is
  \<open>CurryEnv_step\<close>.
\<close>

lemma CurryEnv_step_shared_view:
  "CurryEnv_step_shared (curry_shared_view c) actions =
     (case CurryEnv_step c actions of
        Inl e \<Rightarrow> Inl e
      | Inr (res, actions', c') \<Rightarrow> Inr (res, actions', curry_shared_view c'))"
  by (simp add: CurryEnv_step_shared_def CurryEnv_step_def curry_shared_view_def
      env_as_shared_def Let_def split: prod.splits sum.splits)

lemma CurryEnv_step_shared_InrE:
  assumes "CurryEnv_step_shared c actions = Inr (res, actions', c')"
  obtains observations rewards dn infos s' where
    "sh_step (cs_env c) (sh_state (cs_env c))
       (py_insert actions (cs_agent_to_fix c) (cs_agent c (cs_last_obs c))) =
       Inr ((observations, rewards, dn, infos), actions', s')"
proof (cases "sh_step (cs_env c) (sh_state (cs_env c))
       (py_insert actions (cs_agent_to_fix c) (cs_agent c (cs_last_obs c)))")
  case (Inl e)
  then show ?thesis using assms by (simp add: CurryEnv_step_shared_def)
next
  case (Inr p)
  then obtain observations rewards dn infos actions2 s' where
    e: "sh_step (cs_env c) (sh_state (cs_env c))
       (py_insert actions (cs_agent_to_fix c) (cs_agent c (cs_last_obs c))) =
       Inr ((observations, rewards, dn, infos), actions2, s')"
    by (metis prod.exhaust)
  have "actions2 = actions'"
  proof (cases "tuple_pop observations (cs_agent_to_fix c)")
    case (Inl err)
    then show ?thesis using assms e by (simp add: CurryEnv_step_shared_def)
  next
    case (Inr q)
    then obtain obs' lo where q: "tuple_pop observations (cs_agent_to_fix c) = Inr (obs', lo)"
      by (cases q) simp
    show ?thesis
    proof (cases "tuple_pop rewards (cs_agent_to_fix c)")
      case (Inl err)
      then show ?thesis using assms e q by (simp add: CurryEnv_step_shared_def)
    next
      case (Inr r)
      then obtain rews' lr where r: "tuple_pop rewards (cs_agent_to_fix c) = Inr (rews', lr)"
        by (cases r) simp
      show ?thesis using assms e q r by (simp add: CurryEnv_step_shared_def)
    qed
  qed
  with e show ?thesis using that by blast
qed

lemma env_as_shared_leaves:
  "sh_step (env_as_shared env) s a = Inr (res_w, a', s') \<Longrightarrow> a' = a"
  by (auto simp: env_as_shared_def split: prod.splits)

text \<open>
  Claim C9 (when \<open>step\<close> returns, the caller's list has the fixed agent's action inserted
  at the curried index and is one longer), as stated, fails when the wrapped environment
  changes the list as well: it receives the very list object that \<open>step\<close> has inserted
  into. With a CurryEnv around a CurryEnv (outer: index 0, action 7; inner: index 0,
  action 0) the caller's list \<open>[1]\<close> is \<open>[0, 7, 1]\<close> when \<open>step\<close> returns: two
  longer, and the outer agent's action at index 1.
\<close>

theorem curry_nested_step_actions:
  "actions_after (CurryEnv_step_shared example_outer_curry [1]) = Some [0, 7, 1]"
  by (simp add: CurryEnv_step_shared_def example_outer_curry_def example_inner_curry_def
      curry_as_env_def env_as_shared_def example_env3_def policy_seven_def policy_zero_def
      py_insert_def tuple_pop_def py_pop_def actions_after_def Let_def)

text \<open>
  Claim C9, amended: \<open>step\<close> changes the caller's list object. It inserts the fixed
  agent's action at the curried index and hands the same object to the wrapped
  environment's \<open>step\<close>; when \<open>step\<close> returns, the caller's list is that list as the
  wrapped \<open>step\<close> left it. If the wrapped environment's \<open>step\<close> leaves the list it receives
  unchanged, the caller's list is the list passed in with the action inserted by
  \<open>list.insert\<close> at the curried index, one element longer; for an index between 0 and the
  length of the list the action stands at exactly that index.
\<close>

theorem curry_step_shared_actions:
  assumes ret: "CurryEnv_step_shared c actions = Inr (res, actions', c')"
  shows "(\<exists>res_w s'. sh_step (cs_env c) (sh_state (cs_env c))
            (py_insert actions (cs_agent_to_fix c) (cs_agent c (cs_last_obs c))) =
            Inr (res_w, actions', s')) \<and>
         ((\<forall>s a res_w a' s'. sh_step (cs_env c) s a = Inr (res_w, a', s') \<longrightarrow> a' = a) \<longrightarrow>
            actions' = py_insert actions (cs_agent_to_fix c) (cs_agent c (cs_last_obs c)) \<and>
            length actions' = length actions + 1 \<and>
            (0 \<le> cs_agent_to_fix c \<and> cs_agent_to_fix c \<le> int (length actions) \<longrightarrow>
               actions' = take (nat (cs_agent_to_fix c)) actions @
                          [cs_agent c (cs_last_obs c)] @
                          drop (nat (cs_agent_to_fix c)) actions))"
proof -
  from ret obtain observations rewards dn infos s' where
    e: "sh_step (cs_env c) (sh_state (cs_env c))
       (py_insert actions (cs_agent_to_fix c) (cs_agent c (cs_last_obs c))) =
       Inr ((observations, rewards, dn, infos), actions', s')"
    by (rule CurryEnv_step_shared_InrE)
  have first: "\<exists>res_w s'. sh_step (cs_env c) (sh_state (cs_env c))
            (py_insert actions (cs_agent_to_fix c) (cs_agent c (cs_last_obs c))) =
            Inr (res_w, actions', s')"
    using e by blast
  have second: "(\<forall>s a res_w a' s'. sh_step (cs_env c) s a = Inr (res_w, a', s') \<longrightarrow> a' = a) \<longrightarrow>
            actions' = py_insert actions (cs_agent_to_fix c) (cs_agent c (cs_last_obs c)) \<and>
            length actions' = length actions + 1 \<and>
            (0 \<le> cs_agent_to_fix c \<and> cs_agent_to_fix c \<le> int (length actions) \<longrightarrow>
               actions' = take (nat (cs_agent_to_fix c)) actions @
                          [cs_agent c (cs_last_obs c)] @
                          drop (nat (cs_agent_to_fix c)) actions)"
  proof
    assume leaves: "\<forall>s a res_w a' s'. sh_step (cs_env c) s a = Inr (res_w, a', s') \<longrightarrow> a' = a"
    from leaves e have a: "actions' =
        py_insert actions (cs_agent_to_fix c) (cs_agent c (cs_last_obs c))"
      by blast
    then have l: "length actions' = length actions + 1"
      by (simp add: length_py_insert)
    have p: "0 \<le> cs_agent_to_fix c \<and> cs_agent_to_fix c \<le> int (length actions) \<longrightarrow>
               actions' = take (nat (cs_agent_to_fix c)) actions @
                          [cs_agent c (cs_last_obs c)] @
                          drop (nat (cs_agent_to_fix c)) actions"
      using a py_insert_in_range [of "cs_agent_to_fix c" actions "cs_agent c (cs_last_obs c)"]
      by simp
    from a l p show "actions' = py_insert actions (cs_agent_to_fix c) (cs_agent c (cs_last_obs c)) \<and>
            length actions' = length actions + 1 \<and>
            (0 \<le> cs_agent_to_fix c \<and> cs_agent_to_fix c \<le> int (length actions) \<longrightarrow>
               actions' = take (nat (cs_agent_to_fix c)) actions @
                          [cs_agent c (cs_last_obs c)] @
                          drop (nat (cs_agent_to_fix c)) actions)"
      by blast
  qed
  from first second show ?thesis by blast
qed

theorem curry_step_shared_actions_witness:
  "\<exists>res c'. CurryEnv_step_shared example_inner_curry [1, 1] = Inr (res, [0, 1, 1], c') \<and>
     length [0, 1, 1 :: int] = length [1, 1 :: int] + 1"
proof -
  have "\<exists>res actions' c'. CurryEnv_step_shared example_inner_curry [1, 1] = Inr (res, actions', c')"
    by (simp add: CurryEnv_step_shared_def example_inner_curry_def env_as_shared_def
        example_env3_def policy_zero_def py_insert_def tuple_pop_def py_pop_def Let_def) blast
  then obtain res actions' c' where
    s: "CurryEnv_step_shared example_inner_curry [1, 1] = Inr (res, actions', c')" by blast
  have leaves: "\<forall>s a res_w a' s'.
      sh_step (cs_env example_inner_curry) s a = Inr (res_w, a', s') \<longrightarrow> a' = a"
    using env_as_shared_leaves by (fastforce simp: example_inner_curry_def)
  from curry_step_shared_actions [OF s] leaves
  have "actions' = py_insert [1, 1] (cs_agent_to_fix example_inner_curry)
          (cs_agent example_inner_curry (cs_last_obs example_inner_curry))"
    by blast
  then have "actions' = [0, 1, 1]"
    by (simp add: example_inner_curry_def policy_zero_def py_insert_def)
  with s have "CurryEnv_step_shared example_inner_curry [1, 1] = Inr (res, [0, 1, 1], c')"
    by simp
  moreover have "length [0, 1, 1 :: int] = length [1, 1 :: int] + 1" by simp
  ultimately show ?thesis by blast
qed

section \<open>Properties of FlattenMultiEnv\<close>

text \<open>
  Claim C10 (\<open>FlattenMultiEnv.reset\<close> returns the first agent's observation). Whenever the
  wrapped environment's \<open>reset\<close> returns a non-empty tuple of observations, whatever its
  length, \<open>reset\<close> returns element 0 of it, and \<open>_obs_flatten\<close> is not applied; the
  observation that \<open>step\<close> returns is \<open>_obs_flatten\<close> of the whole tuple of observations.
\<close>

theorem flatten_multi_env_reset_first_obs:
  assumes "env_reset (fm_env fm) (env_state (fm_env fm)) = (observations, s')"
    and "observations \<noteq> []"
  shows "(\<exists>fm'. FlattenMultiEnv_reset fm = Inr (observations ! 0, fm')) \<and>
         (\<forall>action flat_obs r dn infos fm'.
            FlattenMultiEnv_step fm action = Inr ((flat_obs, r, dn, infos), fm') \<longrightarrow>
            (\<exists>actions. act_unflatten fm action = Inr actions \<and>
               obs_flatten fm
                 (fst (fst (env_step (fm_env fm) (env_state (fm_env fm)) actions))) =
               Inr flat_obs))"
proof (intro conjI allI impI)
  obtain ob rest where "observations = ob # rest" using assms(2) by (cases observations) auto
  then show "\<exists>fm'. FlattenMultiEnv_reset fm = Inr (observations ! 0, fm')"
    using assms(1) by (simp add: FlattenMultiEnv_reset_def)
next
  fix action flat_obs r dn infos fm'
  assume s: "FlattenMultiEnv_step fm action = Inr ((flat_obs, r, dn, infos), fm')"
  show "\<exists>actions. act_unflatten fm action = Inr actions \<and>
               obs_flatten fm
                 (fst (fst (env_step (fm_env fm) (env_state (fm_env fm)) actions))) =
               Inr flat_obs"
  proof (cases "act_unflatten fm action")
    case (Inl e)
    then show ?thesis using s by (simp add: FlattenMultiEnv_step_def)
  next
    case (Inr actions)
    obtain obs rews dn' infos' s'' where
      e: "env_step (fm_env fm) (env_state (fm_env fm)) actions = ((obs, rews, dn', infos'), s'')"
      by (metis prod.exhaust)
    show ?thesis
    proof (cases "obs_flatten fm obs")
      case (Inl err)
      then show ?thesis using s Inr e by (simp add: FlattenMultiEnv_step_def)
    next
      case (Inr fo)
      then have "fo = flat_obs"
        using s \<open>act_unflatten fm action = Inr actions\<close> e by (simp add: FlattenMultiEnv_step_def)
      then show ?thesis using Inr \<open>act_unflatten fm action = Inr actions\<close> e by simp
    qed
  qed
qed

theorem flatten_multi_env_reset_first_obs_witness:
  "(\<exists>fm'. FlattenMultiEnv_reset example_flatten_env = Inr (100, fm')) \<and>
   (\<exists>r dn infos fm'. FlattenMultiEnv_step example_flatten_env [1, 0, 1] =
      Inr (([10, 11, 12], r, dn, infos), fm'))"
proof -
  have e: "env_reset (fm_env example_flatten_env) (env_state (fm_env example_flatten_env)) =
      ([100, 101, 102], [])"
    by (simp add: example_flatten_env_def example_env3_def)
  have ne: "[100, 101, 102 :: int] \<noteq> []" by simp
  from flatten_multi_env_reset_first_obs [OF e ne]
  have "\<exists>fm'. FlattenMultiEnv_reset example_flatten_env = Inr ([100, 101, 102] ! 0, fm')"
    by blast
  then have a: "\<exists>fm'. FlattenMultiEnv_reset example_flatten_env = Inr (100, fm')" by simp
  have b: "\<exists>r dn infos fm'. FlattenMultiEnv_step example_flatten_env [1, 0, 1] =
      Inr (([10, 11, 12], r, dn, infos), fm')"
    by (simp add: FlattenMultiEnv_step_def example_flatten_env_def example_env3_def) blast
  from a b show ?thesis by blast
qed

section \<open>Properties of the vectorized adapter\<close>

lemma upto_as_upt: "[0..int n - 1] = map int [0..<n]"
proof (rule nth_equalityI)
  show "length [0..int n - 1] = length (map int [0..<n])" by simp
next
  fix i assume "i < length [0..int n - 1]"
  then have "i < n" by simp
  then show "[0..int n - 1] ! i = map int [0..<n] ! i" by (simp add: nth_upto)
qed

lemma tuple_to_dict_zip: "tuple_to_dict xs = zip (map int [0..<length xs]) xs"
  by (simp add: tuple_to_dict_def enumerate_eq_zip zip_map1)

lemma map_of_tuple_to_dict:
  assumes "i < length xs"
  shows "map_of (tuple_to_dict xs) (int i) = Some (xs ! i)"
proof -
  have d: "distinct (map int [0..<length xs])" by (simp add: distinct_map)
  have "map_of (zip (map int [0..<length xs]) xs) (map int [0..<length xs] ! i) = Some (xs ! i)"
    using assms d by (intro map_of_zip_nth) simp_all
  then show ?thesis using assms by (simp add: tuple_to_dict_zip)
qed

lemma keys_tuple_to_dict: "fst ` set (tuple_to_dict xs) = int ` {0..<length xs}"
proof -
  have "map fst (tuple_to_dict xs) = map int [0..<length xs]"
    by (simp add: tuple_to_dict_zip)
  then have "set (map fst (tuple_to_dict xs)) = set (map int [0..<length xs])" by simp
  then show ?thesis by simp
qed

lemma dict_to_tuple_tuple_to_dict:
  assumes "xs \<noteq> []"
  shows "dict_to_tuple (tuple_to_dict xs) = Inr xs"
proof -
  let ?d = "tuple_to_dict xs" and ?n = "length xs"
  have n: "0 < ?n" using assms by simp
  have ne: "?d \<noteq> []" using assms by (simp add: tuple_to_dict_zip)
  have keys: "set (map fst ?d) = int ` {0..<?n}" using keys_tuple_to_dict [of xs] by simp
  have fin: "finite (int ` {0..<?n})" and nonempty: "int ` {0..<?n} \<noteq> {}" using n by auto
  have mn: "Min (int ` {0..<?n}) = 0"
  proof (rule Min_eqI)
    show "finite (int ` {0..<?n})" by (rule fin)
    show "\<And>y. y \<in> int ` {0..<?n} \<Longrightarrow> 0 \<le> y" by auto
    show "0 \<in> int ` {0..<?n}" using n by force
  qed
  have mx: "Max (int ` {0..<?n}) = int ?n - 1"
  proof (rule Max_eqI)
    show "finite (int ` {0..<?n})" by (rule fin)
    show "\<And>y. y \<in> int ` {0..<?n} \<Longrightarrow> y \<le> int ?n - 1" by auto
    have "int (?n - 1) \<in> int ` {0..<?n}" using n by (intro imageI) simp
    then show "int ?n - 1 \<in> int ` {0..<?n}" using n by (simp add: of_nat_diff)
  qed
  have all: "\<forall>k\<in>set (map int [0..<?n]). k \<in> fst ` set ?d"
    by (simp add: keys_tuple_to_dict)
  have "collect (dict_get ?d) (map int [0..<?n]) =
      Inr (map (\<lambda>k. the (map_of ?d k)) (map int [0..<?n]))"
    unfolding collect_dict_get using all by (rule if_P)
  also have "map (\<lambda>k. the (map_of ?d k)) (map int [0..<?n]) = xs"
    by (rule nth_equalityI) (simp_all add: map_of_tuple_to_dict)
  finally have c: "collect (dict_get ?d) [0..int ?n - 1] = Inr xs"
    by (simp only: upto_as_upt)
  show ?thesis
    using ne c by (simp add: dict_to_tuple_def keys mn mx del: set_map)
qed


lemma TupleToDict_init_ok:
  assumes "int (length (action_space env)) = num_agents env"
    and "int (length (observation_space env)) = num_agents env"
  shows "TupleToDict_init env =
     Inr \<lparr>td_env = env, td_num_agents = num_agents env,
          td_action_space = tuple_to_dict (action_space env),
          td_observation_space = tuple_to_dict (observation_space env)\<rparr>"
  using assms by (simp add: TupleToDict_init_def MultiWrapper_init_def)

lemma collect_decorated:
  assumes "\<forall>fn\<in>set fns. int (length (action_space (fn ()))) = num_agents (fn ()) \<and>
             int (length (observation_space (fn ()))) = num_agents (fn ())"
  shows "collect (\<lambda>fn. fn ()) (map decorate_tuple_to_dict fns) =
     Inr (map (\<lambda>fn. \<lparr>td_env = fn (), td_num_agents = num_agents (fn ()),
          td_action_space = tuple_to_dict (action_space (fn ())),
          td_observation_space = tuple_to_dict (observation_space (fn ()))\<rparr>) fns)"
  using assms
proof (induction fns)
  case Nil
  then show ?case by simp
next
  case (Cons fn fns)
  then have "TupleToDict_init (fn ()) =
     Inr \<lparr>td_env = fn (), td_num_agents = num_agents (fn ()),
          td_action_space = tuple_to_dict (action_space (fn ())),
          td_observation_space = tuple_to_dict (observation_space (fn ()))\<rparr>"
    by (intro TupleToDict_init_ok) simp_all
  then show ?case using Cons by (simp add: decorate_tuple_to_dict_def)
qed

text \<open>
  Claim C5 (construction fails when a factory's environment has another \<open>num_agents\<close>
  than the first), as stated, does not hold: from the factories of a 2-agent and of a
  3-agent environment \<open>make_dummy_vec_multi_env\<close> builds the adapter and raises nothing.
  Neither \<open>_DummyVecMultiEnv.__init__\<close> nor \<open>_make_vec_multi_env\<close> compares the
  environments' \<open>num_agents\<close>.
\<close>

theorem make_dummy_vec_multi_env_mismatch:
  "\<not> isl (make_dummy_vec_multi_env [example_fn2, example_fn3])"
proof -
  have a: "dict_to_tuple (tuple_to_dict [Discrete 2, Discrete 2]) = Inr [Discrete 2, Discrete 2]"
    by (rule dict_to_tuple_tuple_to_dict) simp
  have b: "dict_to_tuple (tuple_to_dict [Discrete 200, Discrete 200]) =
      Inr [Discrete 200, Discrete 200]"
    by (rule dict_to_tuple_tuple_to_dict) simp
  show ?thesis
    by (simp add: make_dummy_vec_multi_env_def make_vec_multi_env_def DummyVecMultiEnv_init_def
        DummyVecEnv_init_def decorate_tuple_to_dict_def TupleToDict_init_def
        MultiWrapper_init_def DictToTuple_init_def example_fn2_def example_fn3_def
        example_env2_def example_env3_def a b Let_def)
qed

text \<open>
  Claim C5, amended: construction does not compare \<open>num_agents\<close> across the factories.
  When every factory's environment passes the checks of \<open>MultiAgentEnv.__init__\<close> on its
  own (its space tuples have its own \<open>num_agents\<close> components) and the first one has at
  least one agent, \<open>make_dummy_vec_multi_env\<close> returns an adapter whose \<open>num_agents\<close> and
  spaces are those of the first factory's environment and whose \<open>num_envs\<close> is the number
  of factories, whatever the \<open>num_agents\<close> of the other environments.
\<close>

theorem make_dummy_vec_multi_env_first_count:
  assumes cons: "\<forall>fn\<in>set (fn0 # fns).
             int (length (action_space (fn ()))) = num_agents (fn ()) \<and>
             int (length (observation_space (fn ()))) = num_agents (fn ())"
    and n: "1 \<le> num_agents (fn0 ())"
  shows "\<exists>v. make_dummy_vec_multi_env (fn0 # fns) = Inr v \<and>
           dt_num_agents v = num_agents (fn0 ()) \<and>
           dt_num_envs v = int (length (fn0 # fns)) \<and>
           dt_action_space v = action_space (fn0 ()) \<and>
           dt_observation_space v = observation_space (fn0 ())"
proof -
  let ?td = "\<lambda>fn. \<lparr>td_env = fn (), td_num_agents = num_agents (fn ()),
          td_action_space = tuple_to_dict (action_space (fn ())),
          td_observation_space = tuple_to_dict (observation_space (fn ()))\<rparr>"
  have la: "int (length (action_space (fn0 ()))) = num_agents (fn0 ())"
    and lo: "int (length (observation_space (fn0 ()))) = num_agents (fn0 ())"
    using cons by simp_all
  have nea: "action_space (fn0 ()) \<noteq> []" and neo: "observation_space (fn0 ()) \<noteq> []"
    using la lo n by auto
  have c: "collect (\<lambda>fn. fn ()) (map decorate_tuple_to_dict (fn0 # fns)) =
     Inr (map ?td (fn0 # fns))"
    using cons by (rule collect_decorated)
  have base: "DummyVecEnv_init (map decorate_tuple_to_dict (fn0 # fns)) =
     Inr \<lparr>dv_envs = map ?td (fn0 # fns), dv_num_envs = int (length (fn0 # fns)),
          dv_observation_space = tuple_to_dict (observation_space (fn0 ())),
          dv_action_space = tuple_to_dict (action_space (fn0 ()))\<rparr>"
    unfolding DummyVecEnv_init_def c by simp
  have venv: "DummyVecMultiEnv_init (map decorate_tuple_to_dict (fn0 # fns)) =
     Inr \<lparr>vm_base = \<lparr>dv_envs = map ?td (fn0 # fns), dv_num_envs = int (length (fn0 # fns)),
          dv_observation_space = tuple_to_dict (observation_space (fn0 ())),
          dv_action_space = tuple_to_dict (action_space (fn0 ()))\<rparr>,
        vm_num_agents = num_agents (fn0 ()),
        vm_buf_rews_shape = (int (length (fn0 # fns)), num_agents (fn0 ()))\<rparr>"
    unfolding DummyVecMultiEnv_init_def base by (simp add: Let_def)
  show ?thesis
    unfolding make_dummy_vec_multi_env_def make_vec_multi_env_def venv
    by (simp add: DictToTuple_init_def dict_to_tuple_tuple_to_dict [OF nea]
        dict_to_tuple_tuple_to_dict [OF neo])
qed

theorem make_dummy_vec_multi_env_first_count_witness:
  "num_agents (example_fn2 ()) = 2 \<and> num_agents (example_fn3 ()) = 3 \<and>
   (\<exists>v. make_dummy_vec_multi_env [example_fn2, example_fn3] = Inr v \<and>
      dt_num_agents v = 2 \<and> dt_num_envs v = 2 \<and>
      dt_action_space v = [Discrete 2, Discrete 2])"
proof -
  have cons: "\<forall>fn\<in>set [example_fn2, example_fn3].
             int (length (action_space (fn ()))) = num_agents (fn ()) \<and>
             int (length (observation_space (fn ()))) = num_agents (fn ())"
    by (simp add: example_fn2_def example_fn3_def example_env2_def example_env3_def)
  have n: "1 \<le> num_agents (example_fn2 ())"
    by (simp add: example_fn2_def example_env2_def)
  from make_dummy_vec_multi_env_first_count [OF cons n]
  obtain v where "make_dummy_vec_multi_env [example_fn2, example_fn3] = Inr v"
    and "dt_num_agents v = num_agents (example_fn2 ())"
    and "dt_num_envs v = int (length [example_fn2, example_fn3])"
    and "dt_action_space v = action_space (example_fn2 ())"
    by blast
  then have "\<exists>v. make_dummy_vec_multi_env [example_fn2, example_fn3] = Inr v \<and>
      dt_num_agents v = 2 \<and> dt_num_envs v = 2 \<and>
      dt_action_space v = [Discrete 2, Discrete 2]"
    by (simp add: example_fn2_def example_env2_def)
  then show ?thesis
    by (simp add: example_fn2_def example_fn3_def example_env2_def example_env3_def)
qed

end
